theory Spec2Isabelle
  imports Main "HOL-Library.Char_ord" "HOL-Library.List_Lexorder"
begin

section \<open>JavaScript completions and the browser's localStorage\<close>

text \<open>
  A JavaScript call either returns a value or throws. A call is modelled by a value of
  \<open>js_error + 'a\<close>: \<open>Inl e\<close> is the exception \<open>e\<close> reaching the caller, \<open>Inr v\<close> is the
  normal return of \<open>v\<close>. \<open>try_catch\<close> is \<^verbatim>\<open>try { body } catch (e) { handler }\<close> and
  \<open>and_then\<close> is sequencing of two statements, the second skipped when the first throws.
\<close>

datatype js_error = SyntaxError | QuotaExceededError | SecurityError

definition try_catch :: "js_error + 'a \<Rightarrow> (js_error \<Rightarrow> js_error + 'a) \<Rightarrow> js_error + 'a" where
  "try_catch body handler = (case body of Inl e \<Rightarrow> handler e | Inr v \<Rightarrow> Inr v)"

definition and_then :: "js_error + 'a \<Rightarrow> ('a \<Rightarrow> js_error + 'b) \<Rightarrow> js_error + 'b" where
  "and_then m f = (case m of Inl e \<Rightarrow> Inl e | Inr v \<Rightarrow> f v)"

text \<open>
  The text stored under a key is the empty string, a string that \<^verbatim>\<open>JSON.parse\<close> rejects,
  or the JSON text of a value. \<^verbatim>\<open>JSON.parse\<close> throws a SyntaxError on the first two.
\<close>

datatype 'v item = EmptyText | Unparseable | Json 'v

definition JSON_parse :: "'v item \<Rightarrow> js_error + 'v" where
  "JSON_parse raw = (case raw of Json v \<Rightarrow> Inr v | EmptyText \<Rightarrow> Inl SyntaxError
                               | Unparseable \<Rightarrow> Inl SyntaxError)"

text \<open>
  \<^verbatim>\<open>raw || '{}'\<close> and its relatives: a missing key (\<^verbatim>\<open>null\<close>) and the empty string are
  falsy and are replaced by the JSON text of the default.
\<close>

definition or_text :: "'v item option \<Rightarrow> 'v \<Rightarrow> 'v item" where
  "or_text raw d = (case raw of None \<Rightarrow> Json d | Some EmptyText \<Rightarrow> Json d | Some t \<Rightarrow> t)"

section \<open>The persisted data\<close>

text \<open>
  Timestamps are ISO-8601 strings compared with JavaScript's \<^verbatim>\<open>>\<close> on strings, which is
  the lexicographic order on code units: the order of \<open>string\<close> used here.
\<close>

record message =
  msg_id :: string
  msg_orderId :: "string option"
  sender :: string
  msg_type :: string
  content :: string
  imageUrl :: "string option"
  fileName :: "string option"
  senderName :: "string option"
  senderEmail :: "string option"
  timestamp :: string
  read :: bool

record conversation =
  orderId :: string
  customerId :: "string option"
  driverId :: "string option"
  messages :: "message list"
  createdAt :: string
  lastMessageTime :: string

type_synonym chats = "string \<rightharpoonup> conversation"
type_synonym unread = "string \<rightharpoonup> nat"

record user =
  name :: string
  email :: string

text \<open>
  localStorage as the chat modules see it: the text under \<^verbatim>\<open>'rideflow-chats'\<close>, the text
  under \<^verbatim>\<open>'rideflow-unread-messages'\<close>, and whether \<^verbatim>\<open>getItem\<close> and \<^verbatim>\<open>setItem\<close> throw
  (storage blocked, quota exceeded).
\<close>

record local_storage =
  chats_item :: "chats item option"
  unread_item :: "unread item option"
  getItem_throws :: bool
  setItem_throws :: bool

definition getItem_chats :: "local_storage \<Rightarrow> js_error + chats item option" where
  "getItem_chats ls = (if getItem_throws ls then Inl SecurityError else Inr (chats_item ls))"

definition setItem_chats :: "local_storage \<Rightarrow> chats \<Rightarrow> js_error + local_storage" where
  "setItem_chats ls v =
     (if setItem_throws ls then Inl QuotaExceededError else Inr (ls\<lparr>chats_item := Some (Json v)\<rparr>))"

definition getItem_unread :: "local_storage \<Rightarrow> js_error + unread item option" where
  "getItem_unread ls = (if getItem_throws ls then Inl SecurityError else Inr (unread_item ls))"

definition setItem_unread :: "local_storage \<Rightarrow> unread \<Rightarrow> js_error + local_storage" where
  "setItem_unread ls v =
     (if setItem_throws ls then Inl QuotaExceededError else Inr (ls\<lparr>unread_item := Some (Json v)\<rparr>))"

definition epoch_zero :: string where
  "epoch_zero = ''1970-01-01T00:00:00.000Z''"

section \<open>ChatSync (driver side), src/shared/chat-sync.js\<close>

text \<open>
  Module state: whether \<^verbatim>\<open>_onNewMessage\<close> is a function, and \<^verbatim>\<open>_lastSeenTimestamp\<close>.
  Identifiers lose their leading underscore.
\<close>

record chat_sync =
  onNewMessage :: bool
  lastSeenTimestamp :: "string \<rightharpoonup> string"

definition readChats :: "local_storage \<Rightarrow> js_error + chats" where
  "readChats ls =
     try_catch (and_then (getItem_chats ls) (\<lambda>raw. JSON_parse (or_text raw Map.empty)))
               (\<lambda>_. Inr Map.empty)"

definition writeChats :: "local_storage \<Rightarrow> chats \<Rightarrow> js_error + local_storage" where
  "writeChats ls chats = setItem_chats ls chats"

definition readUnread :: "local_storage \<Rightarrow> js_error + unread" where
  "readUnread ls =
     try_catch (and_then (getItem_unread ls) (\<lambda>raw. JSON_parse (or_text raw Map.empty)))
               (\<lambda>_. Inr Map.empty)"

definition writeUnread :: "local_storage \<Rightarrow> unread \<Rightarrow> js_error + local_storage" where
  "writeUnread ls un = setItem_unread ls un"

text \<open>\<^verbatim>\<open>(chats[orderId] && chats[orderId].messages) || []\<close>\<close>

definition messages_or_empty :: "chats \<Rightarrow> string \<Rightarrow> message list" where
  "messages_or_empty chats oid = (case chats oid of None \<Rightarrow> [] | Some c \<Rightarrow> messages c)"

text \<open>\<^verbatim>\<open>table[orderId] || new Date(0).toISOString()\<close>: a missing or empty entry is falsy.\<close>

definition or_epoch :: "string option \<Rightarrow> string" where
  "or_epoch t = (case t of None \<Rightarrow> epoch_zero | Some s \<Rightarrow> if s = [] then epoch_zero else s)"

definition notify :: "chat_sync \<Rightarrow> message \<Rightarrow> message list" where
  "notify st msg = (if onNewMessage st then [msg] else [])"

text \<open>
  \<open>init\<close> stores the callback and seeds the watermark with the timestamp of the last
  stored message. The storage listener and the 1.5 s timer it registers are the two
  triggers that later run \<open>checkForNewMessages\<close>.
\<close>

definition init :: "chat_sync \<Rightarrow> local_storage \<Rightarrow> string \<Rightarrow> bool \<Rightarrow> js_error + chat_sync" where
  "init st ls oid is_function =
     and_then (readChats ls) (\<lambda>chats.
       let msgs = messages_or_empty chats oid in
       Inr (st\<lparr>onNewMessage := is_function,
               lastSeenTimestamp := (lastSeenTimestamp st)
                 (oid \<mapsto> (if msgs \<noteq> [] then timestamp (last msgs) else epoch_zero))\<rparr>))"

text \<open>
  One reconcile pass. The result is the new module state and the messages handed to the
  callback, in call order.
\<close>

definition checkForNewMessages ::
  "chat_sync \<Rightarrow> local_storage \<Rightarrow> string \<Rightarrow> js_error + (chat_sync \<times> message list)" where
  "checkForNewMessages st ls oid =
     and_then (readChats ls) (\<lambda>chats.
       let msgs = messages_or_empty chats oid;
           lastSeen = or_epoch (lastSeenTimestamp st oid);
           newMsgs = filter (\<lambda>m. timestamp m > lastSeen) msgs
       in if newMsgs = [] then Inr (st, [])
          else Inr (st\<lparr>lastSeenTimestamp := (lastSeenTimestamp st)(oid \<mapsto> timestamp (last newMsgs))\<rparr>,
                    concat (map (notify st) newMsgs)))"

text \<open>
  \<open>sendMessage\<close>. The current user comes from \<^verbatim>\<open>Storage.getCurrentUser()\<close>, which is not
  part of the sources at hand and is taken as the parameter \<open>u\<close>; \<open>now\<close> is the reading of
  the clock. In \<^verbatim>\<open>{ senderName: msg.senderName || d, senderEmail: ..., ...msg }\<close> the spread
  comes last, so a field the message carries wins and the default fills a missing one.
\<close>

definition enrich :: "user option \<Rightarrow> message \<Rightarrow> message" where
  "enrich u msg =
     msg\<lparr>senderName := (case senderName msg of
                           None \<Rightarrow> Some (case u of Some x \<Rightarrow> name x | None \<Rightarrow> ''Guest'')
                         | Some n \<Rightarrow> Some n),
         senderEmail := (case senderEmail msg of
                           None \<Rightarrow> Some (case u of Some x \<Rightarrow> email x | None \<Rightarrow> [])
                         | Some n \<Rightarrow> Some n)\<rparr>"

definition new_conversation :: "string \<Rightarrow> string \<Rightarrow> conversation" where
  "new_conversation oid now =
     \<lparr>orderId = oid, customerId = None, driverId = None, messages = [],
      createdAt = now, lastMessageTime = now\<rparr>"

definition or_zero :: "nat option \<Rightarrow> nat" where
  "or_zero c = (case c of None \<Rightarrow> 0 | Some n \<Rightarrow> n)"

definition sendMessage ::
  "string \<Rightarrow> user option \<Rightarrow> local_storage \<Rightarrow> string \<Rightarrow> message \<Rightarrow> js_error + local_storage" where
  "sendMessage now u ls oid msg =
     (let enriched = enrich u msg in
      and_then (readChats ls) (\<lambda>chats.
        let conv = (case chats oid of None \<Rightarrow> new_conversation oid now | Some c \<Rightarrow> c);
            exists = list_ex (\<lambda>m. msg_id m = msg_id enriched) (messages conv);
            conv' = (if \<not> exists
                     then conv\<lparr>messages := messages conv @ [enriched],
                               lastMessageTime := timestamp enriched\<rparr>
                     else conv)
        in and_then (writeChats ls (chats(oid \<mapsto> conv'))) (\<lambda>ls1.
             if sender enriched \<noteq> ''driver''
             then and_then (readUnread ls1) (\<lambda>un.
                    writeUnread ls1 (un(oid \<mapsto> or_zero (un oid) + 1)))
             else Inr ls1)))"

definition deleteChatHistory :: "string \<Rightarrow> local_storage \<Rightarrow> string \<Rightarrow> js_error + local_storage" where
  "deleteChatHistory now ls oid =
     and_then (readChats ls) (\<lambda>chats.
       writeChats ls (case chats oid of
                        None \<Rightarrow> chats
                      | Some c \<Rightarrow> chats(oid \<mapsto> c\<lparr>messages := [], lastMessageTime := now\<rparr>)))"

definition getMessages :: "local_storage \<Rightarrow> string \<Rightarrow> js_error + message list" where
  "getMessages ls oid = and_then (readChats ls) (\<lambda>chats. Inr (messages_or_empty chats oid))"

definition markAllRead :: "local_storage \<Rightarrow> string \<Rightarrow> js_error + local_storage" where
  "markAllRead ls oid = and_then (readUnread ls) (\<lambda>un. writeUnread ls (un(oid := None)))"

definition getUnreadCount :: "local_storage \<Rightarrow> string \<Rightarrow> js_error + nat" where
  "getUnreadCount ls oid = and_then (readUnread ls) (\<lambda>un. Inr (or_zero (un oid)))"

section \<open>ChatSyncBridge (customer side), src/shared/chat-sync.js\<close>

text \<open>
  The bridge has private copies of \<^verbatim>\<open>_readChats\<close> and \<^verbatim>\<open>_writeChats\<close> with the same
  bodies as ChatSync's; \<open>readChats\<close> and \<open>writeChats\<close> stand for both. Module state:
  \<^verbatim>\<open>_activeOrderId\<close> (\<open>None\<close> is \<^verbatim>\<open>null\<close>), whether the two callbacks are functions,
  \<^verbatim>\<open>_lastSeenTs\<close>, \<^verbatim>\<open>_seenCount\<close> and \<^verbatim>\<open>_userId\<close>.
\<close>

record bridge =
  activeOrderId :: "string option"
  onDriverMessage :: bool
  onChatCleared :: bool
  lastSeenTs :: "string \<rightharpoonup> string"
  seenCount :: "string \<rightharpoonup> nat"
  userId :: string

datatype callback = DriverMessage message | ChatCleared string

text \<open>
  Truthiness of a string that may be \<^verbatim>\<open>null\<close> or \<^verbatim>\<open>undefined\<close>: \<open>truthy x\<close> is \<open>Some s\<close>
  for a non-empty string \<open>s\<close> and \<open>None\<close> where \<^verbatim>\<open>!x\<close> holds.
\<close>

definition truthy :: "string option \<Rightarrow> string option" where
  "truthy x = (case x of None \<Rightarrow> None | Some s \<Rightarrow> if s = [] then None else Some s)"

definition checkForDriverMessages ::
  "bridge \<Rightarrow> local_storage \<Rightarrow> string \<Rightarrow> js_error + (bridge \<times> callback list)" where
  "checkForDriverMessages st ls oid =
     and_then (readChats ls) (\<lambda>chats.
       let msgs = messages_or_empty chats oid;
           lastTs = or_epoch (lastSeenTs st oid);
           seen = or_zero (seenCount st oid)
       in if length msgs < seen
          then Inr (st\<lparr>lastSeenTs := (lastSeenTs st)(oid \<mapsto> epoch_zero),
                       seenCount := (seenCount st)(oid \<mapsto> 0)\<rparr>,
                    if onChatCleared st then [ChatCleared oid] else [])
          else
            let st1 = st\<lparr>seenCount := (seenCount st)(oid \<mapsto> length msgs)\<rparr>;
                fresh = filter (\<lambda>m. sender m = ''driver'' \<and> timestamp m > lastTs) msgs
            in if fresh = [] then Inr (st1, [])
               else Inr (st1\<lparr>lastSeenTs := (lastSeenTs st1)(oid \<mapsto> timestamp (last fresh))\<rparr>,
                         concat (map (\<lambda>msg. if onDriverMessage st1 then [DriverMessage msg] else [])
                                     fresh)))"

definition bridge_init ::
  "bridge \<Rightarrow> local_storage \<Rightarrow> string \<Rightarrow> string option \<Rightarrow> bool \<Rightarrow> bool \<Rightarrow> js_error + bridge" where
  "bridge_init st ls oid uid onDriverMsg_is_function onCleared_is_function =
     and_then (readChats ls) (\<lambda>chats.
       let msgs = messages_or_empty chats oid in
       Inr (st\<lparr>activeOrderId := Some oid,
               userId := (case uid of None \<Rightarrow> ''customer''
                          | Some n \<Rightarrow> if n = [] then ''customer'' else n),
               onDriverMessage := onDriverMsg_is_function,
               onChatCleared := onCleared_is_function,
               lastSeenTs := (lastSeenTs st)
                 (oid \<mapsto> (if msgs \<noteq> [] then timestamp (last msgs) else epoch_zero)),
               seenCount := (seenCount st)(oid \<mapsto> length msgs)\<rparr>))"

text \<open>
  \<open>persist\<close> appends without looking for the id and counts the message as unread; the
  unread update sits in its own \<^verbatim>\<open>try\<close> whose handler ignores the exception. \<open>oid\<close> is
  \<^verbatim>\<open>_activeOrderId\<close>, which both callers have tested before the call.
\<close>

definition persist ::
  "string \<Rightarrow> bridge \<Rightarrow> local_storage \<Rightarrow> string \<Rightarrow> message \<Rightarrow> js_error + local_storage" where
  "persist now st ls oid msg =
     and_then (readChats ls) (\<lambda>chats.
       let conv = (case chats oid of
                     None \<Rightarrow> \<lparr>orderId = oid, customerId = Some (userId st),
                              driverId = Some ''drv_001'', messages = [],
                              createdAt = now, lastMessageTime = now\<rparr>
                   | Some c \<Rightarrow> c);
           conv' = conv\<lparr>messages := messages conv @ [msg], lastMessageTime := timestamp msg\<rparr>
       in and_then (writeChats ls (chats(oid \<mapsto> conv'))) (\<lambda>ls1.
            try_catch
              (and_then (getItem_unread ls1) (\<lambda>raw.
                 and_then (JSON_parse (or_text raw Map.empty)) (\<lambda>un.
                   setItem_unread ls1 (un(oid \<mapsto> or_zero (un oid) + 1)))))
              (\<lambda>_. Inr ls1)))"

text \<open>
  \<open>gen_id\<close> is the value of \<^verbatim>\<open>_genId()\<close> (clock and random digits), \<open>now\<close> the reading of
  the clock, \<open>u\<close> the result of \<^verbatim>\<open>Storage.getCurrentUser()\<close>.
\<close>

definition display_name :: "user option \<Rightarrow> bridge \<Rightarrow> string" where
  "display_name u st =
     (case u of
        Some x \<Rightarrow> if name x \<noteq> [] then name x
                  else (if userId st \<noteq> [] then userId st else ''Customer'')
      | None \<Rightarrow> (if userId st \<noteq> [] then userId st else ''Customer''))"

definition display_email :: "user option \<Rightarrow> string" where
  "display_email u = (case u of Some x \<Rightarrow> if email x \<noteq> [] then email x else [] | None \<Rightarrow> [])"

definition sendTextMessage ::
  "string \<Rightarrow> string \<Rightarrow> user option \<Rightarrow> bridge \<Rightarrow> local_storage \<Rightarrow> string \<Rightarrow> js_error + local_storage" where
  "sendTextMessage now gen_id u st ls text =
     (case truthy (activeOrderId st) of
        None \<Rightarrow> Inr ls
      | Some oid \<Rightarrow>
          persist now st ls oid
            \<lparr>msg_id = gen_id, msg_orderId = Some oid, sender = ''customer'',
             msg_type = ''text'', content = text, imageUrl = None, fileName = None,
             senderName = Some (display_name u st), senderEmail = Some (display_email u),
             timestamp = now, read = False\<rparr>)"

definition or_image :: "string option \<Rightarrow> string" where
  "or_image f = (case truthy f of None \<Rightarrow> ''image'' | Some n \<Rightarrow> n)"

definition sendImageMessage ::
  "string \<Rightarrow> string \<Rightarrow> user option \<Rightarrow> bridge \<Rightarrow> local_storage \<Rightarrow> string \<Rightarrow> string option
     \<Rightarrow> js_error + local_storage" where
  "sendImageMessage now gen_id u st ls dataUrl fname =
     (case truthy (activeOrderId st) of
        None \<Rightarrow> Inr ls
      | Some oid \<Rightarrow>
          persist now st ls oid
            \<lparr>msg_id = gen_id, msg_orderId = Some oid, sender = ''customer'',
             msg_type = ''image'', content = or_image fname, imageUrl = Some dataUrl,
             fileName = Some (or_image fname),
             senderName = Some (display_name u st), senderEmail = Some (display_email u),
             timestamp = now, read = False\<rparr>)"

definition getHistory :: "bridge \<Rightarrow> local_storage \<Rightarrow> js_error + message list" where
  "getHistory st ls =
     (case truthy (activeOrderId st) of
        None \<Rightarrow> Inr []
      | Some oid \<Rightarrow> and_then (readChats ls) (\<lambda>chats. Inr (messages_or_empty chats oid)))"

text \<open>
  \<open>bridge_deleteChatHistory\<close> is the bridge's \<^verbatim>\<open>deleteChatHistory(orderId)\<close>; the argument
  is optional and \<^verbatim>\<open>orderId || _activeOrderId\<close> picks the target.
\<close>

definition bridge_deleteChatHistory ::
  "string \<Rightarrow> bridge \<Rightarrow> local_storage \<Rightarrow> string option \<Rightarrow> js_error + (bridge \<times> local_storage)" where
  "bridge_deleteChatHistory now st ls arg =
     (let target = (case truthy arg of None \<Rightarrow> activeOrderId st | Some a \<Rightarrow> Some a) in
      case truthy target of
        None \<Rightarrow> Inr (st, ls)
      | Some t \<Rightarrow>
          and_then (readChats ls) (\<lambda>chats.
            and_then (writeChats ls (case chats t of
                                       None \<Rightarrow> chats
                                     | Some c \<Rightarrow> chats(t \<mapsto> c\<lparr>messages := [],
                                                             lastMessageTime := now\<rparr>)))
              (\<lambda>ls1. Inr (st\<lparr>lastSeenTs := (lastSeenTs st)(t \<mapsto> now),
                              seenCount := (seenCount st)(t \<mapsto> 0)\<rparr>, ls1))))"

section \<open>The Storage module, src/unnamed/part_000\<close>

text \<open>
  The Storage module reaches every key through \<^verbatim>\<open>_safeGet\<close> and \<^verbatim>\<open>_safeSet\<close>, so its
  localStorage is a table from keys to stored texts, for any kind \<open>'v\<close> of value, with the
  same two ways of failing.
\<close>

record 'v web_storage =
  items :: "string \<rightharpoonup> 'v item"
  reads_throw :: bool
  writes_throw :: bool

definition getItem :: "'v web_storage \<Rightarrow> string \<Rightarrow> js_error + 'v item option" where
  "getItem ws key = (if reads_throw ws then Inl SecurityError else Inr (items ws key))"

definition setItem :: "'v web_storage \<Rightarrow> string \<Rightarrow> 'v \<Rightarrow> js_error + 'v web_storage" where
  "setItem ws key v =
     (if writes_throw ws then Inl QuotaExceededError
      else Inr (ws\<lparr>items := (items ws)(key \<mapsto> Json v)\<rparr>))"

text \<open>\<open>None\<close> is the \<^verbatim>\<open>null\<close> that \<^verbatim>\<open>_safeGet\<close> returns.\<close>

definition safeGet :: "'v web_storage \<Rightarrow> string \<Rightarrow> js_error + 'v option" where
  "safeGet ws key =
     try_catch
       (and_then (getItem ws key) (\<lambda>raw.
          case raw of
            None \<Rightarrow> Inr None
          | Some EmptyText \<Rightarrow> Inr None
          | Some t \<Rightarrow> and_then (JSON_parse t) (\<lambda>v. Inr (Some v))))
       (\<lambda>_. Inr None)"

definition safeSet :: "'v web_storage \<Rightarrow> string \<Rightarrow> 'v \<Rightarrow> js_error + (bool \<times> 'v web_storage)" where
  "safeSet ws key v =
     try_catch (and_then (setItem ws key v) (\<lambda>ws'. Inr (True, ws')))
               (\<lambda>_. Inr (False, ws))"



text \<open>\<^verbatim>\<open>_safeGet(k) || {}\<close>\<close>

definition or_empty_object :: "('k \<rightharpoonup> 'a) option \<Rightarrow> ('k \<rightharpoonup> 'a)" where
  "or_empty_object r = (case r of None \<Rightarrow> Map.empty | Some m \<Rightarrow> m)"

definition getChats :: "chats web_storage \<Rightarrow> js_error + chats" where
  "getChats ws = and_then (safeGet ws ''rideflow-chats'') (\<lambda>r. Inr (or_empty_object r))"

definition setChats :: "chats web_storage \<Rightarrow> chats \<Rightarrow> js_error + (bool \<times> chats web_storage)" where
  "setChats ws chats = safeSet ws ''rideflow-chats'' chats"


definition setUnread :: "unread web_storage \<Rightarrow> unread \<Rightarrow> js_error + (bool \<times> unread web_storage)" where
  "setUnread ws un = safeSet ws ''rideflow-unread-messages'' un"

definition addMessage ::
  "string \<Rightarrow> chats web_storage \<Rightarrow> string \<Rightarrow> message
     \<Rightarrow> js_error + (bool \<times> chats web_storage)" where
  "addMessage now ws oid msg =
     and_then (getChats ws) (\<lambda>chats.
       let conv = (case chats oid of None \<Rightarrow> new_conversation oid now | Some c \<Rightarrow> c);
           exists = list_ex (\<lambda>m. msg_id m = msg_id msg) (messages conv)
       in if \<not> exists
          then setChats ws (chats(oid \<mapsto> conv\<lparr>messages := messages conv @ [msg],
                                              lastMessageTime := timestamp msg\<rparr>))
          else Inr (False, ws))"

definition Storage_getMessages :: "chats web_storage \<Rightarrow> string \<Rightarrow> js_error + message list" where
  "Storage_getMessages ws oid = and_then (getChats ws) (\<lambda>chats. Inr (messages_or_empty chats oid))"

section \<open>What a read of the store returns\<close>

text \<open>
  \<open>stored_chats\<close> and \<open>stored_unread\<close> name the maps that \<open>readChats\<close> and \<open>readUnread\<close>
  return (lemmas \<open>readChats_eq\<close>, \<open>readUnread_eq\<close>), and \<open>stored_messages\<close> the message
  sequence every reader in the chat modules derives from them.
\<close>

definition stored_chats :: "local_storage \<Rightarrow> chats" where
  "stored_chats ls =
     (if getItem_throws ls then Map.empty
      else case chats_item ls of Some (Json c) \<Rightarrow> c | _ \<Rightarrow> Map.empty)"

definition stored_unread :: "local_storage \<Rightarrow> unread" where
  "stored_unread ls =
     (if getItem_throws ls then Map.empty
      else case unread_item ls of Some (Json c) \<Rightarrow> c | _ \<Rightarrow> Map.empty)"

definition stored_messages :: "local_storage \<Rightarrow> string \<Rightarrow> message list" where
  "stored_messages ls oid = messages_or_empty (stored_chats ls) oid"

text \<open>
  The array a pass selects: \<^verbatim>\<open>newMsgs\<close> in \<^verbatim>\<open>_checkForNewMessages\<close> and \<^verbatim>\<open>fresh\<close> in
  \<^verbatim>\<open>_checkForDriverMessages\<close>.
\<close>

definition newMsgs_of :: "chat_sync \<Rightarrow> local_storage \<Rightarrow> string \<Rightarrow> message list" where
  "newMsgs_of st ls oid =
     filter (\<lambda>m. timestamp m > or_epoch (lastSeenTimestamp st oid)) (stored_messages ls oid)"

definition fresh_of :: "bridge \<Rightarrow> local_storage \<Rightarrow> string \<Rightarrow> message list" where
  "fresh_of st ls oid =
     filter (\<lambda>m. sender m = ''driver'' \<and> timestamp m > or_epoch (lastSeenTs st oid))
            (stored_messages ls oid)"

text \<open>
  The callback the driver dashboard registers with \<open>init\<close> (src/driver-dashboard/app.js):
  it returns at once on a message whose sender is \<^verbatim>\<open>'driver'\<close> or when no order is
  active, and appends any other message to the chat view. The result is what it appends.
\<close>

definition dashboard_onNewMessage :: "bool \<Rightarrow> message \<Rightarrow> message list" where
  "dashboard_onNewMessage has_active_order msg =
     (if sender msg = ''driver'' then []
      else if \<not> has_active_order then []
      else [msg])"

text \<open>
  The timer and the storage listener run one pass after another, each on the store as
  it is at that moment: \<open>run_passes\<close> runs a pass on each store of a list in turn and
  collects the callbacks.
\<close>

fun run_passes ::
  "bridge \<Rightarrow> local_storage list \<Rightarrow> string \<Rightarrow> js_error + (bridge \<times> callback list)" where
  "run_passes st [] oid = Inr (st, [])"
| "run_passes st (ls # rest) oid =
     and_then (checkForDriverMessages st ls oid) (\<lambda>(st1, out1).
       and_then (run_passes st1 rest oid) (\<lambda>(st2, out2). Inr (st2, out1 @ out2)))"

section \<open>Example data\<close>

definition text_message :: "string \<Rightarrow> string \<Rightarrow> string \<Rightarrow> message" where
  "text_message i who t =
     \<lparr>msg_id = i, msg_orderId = Some ''ORD-1'', sender = who, msg_type = ''text'',
      content = ''hello'', imageUrl = None, fileName = None, senderName = None,
      senderEmail = None, timestamp = t, read = False\<rparr>"

definition empty_storage :: local_storage where
  "empty_storage =
     \<lparr>chats_item = None, unread_item = None, getItem_throws = False, setItem_throws = False\<rparr>"

definition storage_with :: "message list \<Rightarrow> local_storage" where
  "storage_with msgs =
     \<lparr>chats_item = Some (Json [''ORD-1'' \<mapsto>
         \<lparr>orderId = ''ORD-1'', customerId = None, driverId = None, messages = msgs,
          createdAt = ''2024-01-01T09:00:00.000Z'',
          lastMessageTime = ''2024-01-01T09:00:00.000Z''\<rparr>]),
      unread_item = None, getItem_throws = False, setItem_throws = False\<rparr>"

definition fresh_chat_sync :: chat_sync where
  "fresh_chat_sync = \<lparr>onNewMessage = True, lastSeenTimestamp = Map.empty\<rparr>"

definition fresh_bridge :: bridge where
  "fresh_bridge =
     \<lparr>activeOrderId = None, onDriverMessage = True, onChatCleared = True,
      lastSeenTs = Map.empty, seenCount = Map.empty, userId = ''customer''\<rparr>"

text \<open>
  Two stores for the order \<^verbatim>\<open>'ORD-1'\<close>: one whose append order is its timestamp order, and
  one where a message with an earlier timestamp was appended after a later one.
\<close>

definition in_order_store :: local_storage where
  "in_order_store =
     storage_with [text_message ''m1'' ''customer'' ''2024-01-01T10:00:01.000Z'',
                   text_message ''m2'' ''driver'' ''2024-01-01T10:00:02.000Z'',
                   text_message ''m3'' ''driver'' ''2024-01-01T10:00:03.000Z'']"

definition out_of_order_store :: local_storage where
  "out_of_order_store =
     storage_with [text_message ''m2'' ''customer'' ''2024-01-01T10:00:03.000Z'',
                   text_message ''m1'' ''customer'' ''2024-01-01T10:00:01.000Z'']"

text \<open>
  A bridge that has seen three messages of \<^verbatim>\<open>'ORD-1'\<close>, the last one stamped 10:00:03,
  and the store as the driver side leaves it after deleting the history and writing its
  opening message again with a timestamp in the past.
\<close>

definition bridge_after_three :: bridge where
  "bridge_after_three =
     \<lparr>activeOrderId = Some ''ORD-1'', onDriverMessage = True, onChatCleared = True,
      lastSeenTs = [''ORD-1'' \<mapsto> ''2024-01-01T10:00:03.000Z''],
      seenCount = [''ORD-1'' \<mapsto> 3], userId = ''customer''\<rparr>"

definition store_after_clear :: local_storage where
  "store_after_clear =
     storage_with [text_message ''init-1'' ''driver'' ''2024-01-01T10:00:01.000Z'']"

text \<open>
  The conversations map that \<open>sendMessage\<close> and \<open>addMessage\<close> write back: the entry of the
  order, created when missing, with the message appended unless its id is already there.
\<close>

definition appended :: "string \<Rightarrow> string \<Rightarrow> message \<Rightarrow> chats \<Rightarrow> chats" where
  "appended now oid m chats =
     (let conv = (case chats oid of None \<Rightarrow> new_conversation oid now | Some c \<Rightarrow> c)
      in chats(oid \<mapsto> (if list_ex (\<lambda>x. msg_id x = msg_id m) (messages conv) then conv
                        else conv\<lparr>messages := messages conv @ [m],
                                  lastMessageTime := timestamp m\<rparr>)))"

definition empty_web_storage :: "chats web_storage" where
  "empty_web_storage = \<lparr>items = Map.empty, reads_throw = False, writes_throw = False\<rparr>"

text \<open>
  A run of \<open>sendMessage\<close> calls on one order, each with its own reading of the clock; an
  exception ends the run.
\<close>

fun send_all ::
  "user option \<Rightarrow> local_storage \<Rightarrow> string \<Rightarrow> (string \<times> message) list \<Rightarrow> js_error + local_storage" where
  "send_all u ls oid [] = Inr ls"
| "send_all u ls oid ((now, m) # rest) =
     and_then (sendMessage now u ls oid m) (\<lambda>ls1. send_all u ls1 oid rest)"

definition example_sends :: "(string \<times> message) list" where
  "example_sends =
     [(''2024-01-01T10:00:01.000Z'', text_message ''m1'' ''customer'' ''2024-01-01T10:00:01.000Z''),
      (''2024-01-01T10:00:02.000Z'', text_message ''m2'' ''customer'' ''2024-01-01T10:00:02.000Z''),
      (''2024-01-01T10:00:03.000Z'', text_message ''m3'' ''customer'' ''2024-01-01T10:00:03.000Z''),
      (''2024-01-01T10:00:04.000Z'', text_message ''m4'' ''driver'' ''2024-01-01T10:00:04.000Z'')]"

text \<open>
  The store after the same customer message has been sent twice to empty storage: one
  stored message, an unread count of 2.
\<close>

definition store_after_duplicate :: local_storage where
  "store_after_duplicate =
     \<lparr>chats_item = Some (Json [''ORD-1'' \<mapsto>
         \<lparr>orderId = ''ORD-1'', customerId = None, driverId = None,
          messages = [enrich None (text_message ''m1'' ''customer'' ''2024-01-01T10:00:01.000Z'')],
          createdAt = ''2024-01-01T10:00:01.000Z'',
          lastMessageTime = ''2024-01-01T10:00:01.000Z''\<rparr>]),
      unread_item = Some (Json [''ORD-1'' \<mapsto> 2]),
      getItem_throws = False, setItem_throws = False\<rparr>"

text \<open>
  A store with two conversations: \<^verbatim>\<open>'ORD-1'\<close>, created by the bridge, with two messages,
  and \<^verbatim>\<open>'ORD-2'\<close> with one.
\<close>

definition two_orders_store :: local_storage where
  "two_orders_store =
     \<lparr>chats_item = Some (Json [''ORD-1'' \<mapsto>
         \<lparr>orderId = ''ORD-1'', customerId = Some ''customer'', driverId = Some ''drv_001'',
          messages = [text_message ''m1'' ''customer'' ''2024-01-01T10:00:01.000Z'',
                      text_message ''m2'' ''driver'' ''2024-01-01T10:00:02.000Z''],
          createdAt = ''2024-01-01T10:00:01.000Z'',
          lastMessageTime = ''2024-01-01T10:00:02.000Z''\<rparr>,
        ''ORD-2'' \<mapsto>
         \<lparr>orderId = ''ORD-2'', customerId = None, driverId = None,
          messages = [text_message ''n1'' ''customer'' ''2024-01-01T09:30:00.000Z''],
          createdAt = ''2024-01-01T09:30:00.000Z'',
          lastMessageTime = ''2024-01-01T09:30:00.000Z''\<rparr>]),
      unread_item = Some (Json [''ORD-1'' \<mapsto> 1]),
      getItem_throws = False, setItem_throws = False\<rparr>"



text \<open>
  The store with two conversations after the history of \<^verbatim>\<open>'ORD-1'\<close> has been deleted at
  11:00:00.
\<close>

definition two_orders_store_cleared :: local_storage where
  "two_orders_store_cleared =
     \<lparr>chats_item = Some (Json [''ORD-1'' \<mapsto>
         \<lparr>orderId = ''ORD-1'', customerId = Some ''customer'', driverId = Some ''drv_001'',
          messages = [],
          createdAt = ''2024-01-01T10:00:01.000Z'',
          lastMessageTime = ''2024-01-01T11:00:00.000Z''\<rparr>,
        ''ORD-2'' \<mapsto>
         \<lparr>orderId = ''ORD-2'', customerId = None, driverId = None,
          messages = [text_message ''n1'' ''customer'' ''2024-01-01T09:30:00.000Z''],
          createdAt = ''2024-01-01T09:30:00.000Z'',
          lastMessageTime = ''2024-01-01T09:30:00.000Z''\<rparr>]),
      unread_item = Some (Json [''ORD-1'' \<mapsto> 1]),
      getItem_throws = False, setItem_throws = False\<rparr>"


section \<open>Properties\<close>

lemma readChats_eq: "readChats ls = Inr (stored_chats ls)"
  by (simp add: readChats_def stored_chats_def try_catch_def and_then_def getItem_chats_def
      JSON_parse_def or_text_def split: option.splits item.splits)

lemma readUnread_eq: "readUnread ls = Inr (stored_unread ls)"
  by (simp add: readUnread_def stored_unread_def try_catch_def and_then_def getItem_unread_def
      JSON_parse_def or_text_def split: option.splits item.splits)

lemma getMessages_eq: "getMessages ls oid = Inr (stored_messages ls oid)"
  by (simp add: getMessages_def readChats_eq and_then_def stored_messages_def)

lemma concat_map_notify: "concat (map (notify st) xs) = (if onNewMessage st then xs else [])"
  by (induction xs) (auto simp: notify_def)

lemma concat_map_guard:
  "concat (map (\<lambda>x. if b then [f x] else []) xs) = (if b then map f xs else [])"
  by (induction xs) auto

lemma checkForNewMessages_eq:
  "checkForNewMessages st ls oid =
     (if newMsgs_of st ls oid = [] then Inr (st, [])
      else Inr (st\<lparr>lastSeenTimestamp :=
                     (lastSeenTimestamp st)(oid \<mapsto> timestamp (last (newMsgs_of st ls oid)))\<rparr>,
                if onNewMessage st then newMsgs_of st ls oid else []))"
  by (simp add: checkForNewMessages_def readChats_eq and_then_def stored_messages_def Let_def
      concat_map_notify newMsgs_of_def)

lemma checkForDriverMessages_eq:
  "checkForDriverMessages st ls oid =
     (if length (stored_messages ls oid) < or_zero (seenCount st oid)
      then Inr (st\<lparr>lastSeenTs := (lastSeenTs st)(oid \<mapsto> epoch_zero),
                   seenCount := (seenCount st)(oid \<mapsto> 0)\<rparr>,
                if onChatCleared st then [ChatCleared oid] else [])
      else if fresh_of st ls oid = []
      then Inr (st\<lparr>seenCount := (seenCount st)(oid \<mapsto> length (stored_messages ls oid))\<rparr>, [])
      else Inr (st\<lparr>seenCount := (seenCount st)(oid \<mapsto> length (stored_messages ls oid)),
                   lastSeenTs := (lastSeenTs st)(oid \<mapsto> timestamp (last (fresh_of st ls oid)))\<rparr>,
                if onDriverMessage st then map DriverMessage (fresh_of st ls oid) else []))"
  by (simp add: checkForDriverMessages_def readChats_eq and_then_def stored_messages_def Let_def
      concat_map_guard fresh_of_def)

lemma stored_messages_storage_with: "stored_messages (storage_with msgs) ''ORD-1'' = msgs"
  by (simp add: stored_messages_def storage_with_def stored_chats_def messages_or_empty_def)

lemma sorted_map_le_last:
  "sorted (map f xs) \<Longrightarrow> x \<in> set xs \<Longrightarrow> f x \<le> f (last xs)"
  by (induction xs) (auto split: if_splits)

lemma Max_sorted_last:
  assumes "sorted (map f xs)" "xs \<noteq> []"
  shows "Max (f ` set xs) = f (last xs)"
proof (rule Max_eqI)
  show "finite (f ` set xs)" by simp
  show "\<And>y. y \<in> f ` set xs \<Longrightarrow> y \<le> f (last xs)"
    using assms(1) by (auto dest: sorted_map_le_last)
  show "f (last xs) \<in> f ` set xs" using assms(2) by simp
qed

lemma or_epoch_above: "w < t \<Longrightarrow> or_epoch (Some t) = t"
  by (auto simp: or_epoch_def)

subsection \<open>C1: what a pass hands to the listener\<close>

text \<open>
  Claim C1, as the code has it. A pass of the customer-side bridge that does not detect a
  cleared history hands to its listener exactly the stored messages whose sender is
  \<^verbatim>\<open>'driver'\<close> and whose timestamp is greater than the watermark, in stored order; a pass
  that detects a clear hands over no message; so the bridge never delivers a message of
  its own role. A pass of the driver-side ChatSync hands over every stored message whose
  timestamp is greater than the watermark, whoever sent it; the driver's own messages are
  dropped by the callback that the dashboard registers, not by the channel.
\<close>

theorem C1_pass_selection:
  "(\<exists>st'. checkForDriverMessages br ls oid =
       Inr (st', if length (stored_messages ls oid) < or_zero (seenCount br oid)
                 then (if onChatCleared br then [ChatCleared oid] else [])
                 else if onDriverMessage br
                 then map DriverMessage
                        (filter (\<lambda>m. sender m = ''driver'' \<and> or_epoch (lastSeenTs br oid) < timestamp m)
                                (stored_messages ls oid))
                 else []))
   \<and> (\<forall>st' out m. checkForDriverMessages br ls oid = Inr (st', out) \<and> DriverMessage m \<in> set out
         \<longrightarrow> sender m = ''driver'')
   \<and> (\<exists>st'. checkForNewMessages cs ls oid =
       Inr (st', if onNewMessage cs
                 then filter (\<lambda>m. or_epoch (lastSeenTimestamp cs oid) < timestamp m)
                             (stored_messages ls oid)
                 else []))
   \<and> filter (\<lambda>m. sender m = ''driver'') (concat (map (dashboard_onNewMessage a) msgs)) = []"
proof -
  have D: "filter (\<lambda>m. sender m = ''driver'') (concat (map (dashboard_onNewMessage a) msgs)) = []"
    by (induction msgs) (auto simp: dashboard_onNewMessage_def)
  have B: "\<forall>st' out m. checkForDriverMessages br ls oid = Inr (st', out) \<and> DriverMessage m \<in> set out
         \<longrightarrow> sender m = ''driver''"
    by (auto simp: checkForDriverMessages_eq fresh_of_def split: if_splits)
  have A: "\<exists>st'. checkForDriverMessages br ls oid =
       Inr (st', if length (stored_messages ls oid) < or_zero (seenCount br oid)
                 then (if onChatCleared br then [ChatCleared oid] else [])
                 else if onDriverMessage br
                 then map DriverMessage
                        (filter (\<lambda>m. sender m = ''driver'' \<and> or_epoch (lastSeenTs br oid) < timestamp m)
                                (stored_messages ls oid))
                 else [])"
    unfolding checkForDriverMessages_eq fresh_of_def by simp
  have C: "\<exists>st'. checkForNewMessages cs ls oid =
       Inr (st', if onNewMessage cs
                 then filter (\<lambda>m. or_epoch (lastSeenTimestamp cs oid) < timestamp m)
                             (stored_messages ls oid)
                 else [])"
    unfolding checkForNewMessages_eq newMsgs_of_def by simp
  from A B C D show ?thesis by blast
qed

text \<open>
  The theorem at a store holding a customer message and a later driver message: the
  bridge hands over the driver message only, ChatSync hands over both.
\<close>

theorem C1_pass_selection_witness:
  "(\<exists>st'. checkForDriverMessages fresh_bridge
       (storage_with [text_message ''m1'' ''customer'' ''2024-01-01T10:00:01.000Z'',
                      text_message ''m2'' ''driver'' ''2024-01-01T10:00:02.000Z'']) ''ORD-1''
     = Inr (st', [DriverMessage (text_message ''m2'' ''driver'' ''2024-01-01T10:00:02.000Z'')]))
   \<and> (\<exists>st'. checkForNewMessages fresh_chat_sync
       (storage_with [text_message ''m1'' ''customer'' ''2024-01-01T10:00:01.000Z'',
                      text_message ''m2'' ''driver'' ''2024-01-01T10:00:02.000Z'']) ''ORD-1''
     = Inr (st', [text_message ''m1'' ''customer'' ''2024-01-01T10:00:01.000Z'',
                  text_message ''m2'' ''driver'' ''2024-01-01T10:00:02.000Z'']))"
  using C1_pass_selection [of fresh_bridge
      "storage_with [text_message ''m1'' ''customer'' ''2024-01-01T10:00:01.000Z'',
                     text_message ''m2'' ''driver'' ''2024-01-01T10:00:02.000Z'']"
      "''ORD-1''" fresh_chat_sync True "[]"]
  by (simp add: stored_messages_storage_with fresh_bridge_def fresh_chat_sync_def or_zero_def
      or_epoch_def epoch_zero_def text_message_def)

text \<open>
  Claim C1 as stated fails on the driver side: the driver-side channel, with nothing but
  the driver's own message in the store, hands that message to its listener.
\<close>

theorem C1_driver_channel_delivers_own_message:
  "checkForNewMessages fresh_chat_sync
      (storage_with [text_message ''m1'' ''driver'' ''2024-01-01T10:00:01.000Z'']) ''ORD-1''
   = Inr (\<lparr>onNewMessage = True,
           lastSeenTimestamp = [''ORD-1'' \<mapsto> ''2024-01-01T10:00:01.000Z'']\<rparr>,
          [text_message ''m1'' ''driver'' ''2024-01-01T10:00:01.000Z''])
   \<and> sender (text_message ''m1'' ''driver'' ''2024-01-01T10:00:01.000Z'') = ''driver''"
  by (simp add: checkForNewMessages_eq newMsgs_of_def stored_messages_storage_with
      fresh_chat_sync_def or_epoch_def epoch_zero_def text_message_def)

subsection \<open>C3: where a pass moves the watermark\<close>

text \<open>
  Claim C3, as the code has it. A pass that selects a non-empty array of messages sets
  the watermark to the timestamp of the last selected message in stored (append) order
  (\<^verbatim>\<open>newMsgs[newMsgs.length - 1].timestamp\<close>, \<^verbatim>\<open>fresh[fresh.length - 1].timestamp\<close>). That is
  the greatest timestamp among the selected messages whenever the stored sequence is in
  non-decreasing timestamp order.
\<close>

theorem C3_watermark_is_last_selected:
  "(newMsgs_of cs ls oid \<noteq> [] \<longrightarrow>
      (\<exists>st' out. checkForNewMessages cs ls oid = Inr (st', out) \<and>
         lastSeenTimestamp st' oid = Some (timestamp (last (newMsgs_of cs ls oid))) \<and>
         (sorted (map timestamp (stored_messages ls oid)) \<longrightarrow>
            lastSeenTimestamp st' oid = Some (Max (timestamp ` set (newMsgs_of cs ls oid))))))
   \<and> (fresh_of br ls oid \<noteq> [] \<and> \<not> length (stored_messages ls oid) < or_zero (seenCount br oid) \<longrightarrow>
      (\<exists>st' out. checkForDriverMessages br ls oid = Inr (st', out) \<and>
         lastSeenTs st' oid = Some (timestamp (last (fresh_of br ls oid))) \<and>
         (sorted (map timestamp (stored_messages ls oid)) \<longrightarrow>
            lastSeenTs st' oid = Some (Max (timestamp ` set (fresh_of br ls oid))))))"
proof -
  have A: "newMsgs_of cs ls oid \<noteq> [] \<longrightarrow>
      (\<exists>st' out. checkForNewMessages cs ls oid = Inr (st', out) \<and>
         lastSeenTimestamp st' oid = Some (timestamp (last (newMsgs_of cs ls oid))) \<and>
         (sorted (map timestamp (stored_messages ls oid)) \<longrightarrow>
            lastSeenTimestamp st' oid = Some (Max (timestamp ` set (newMsgs_of cs ls oid)))))"
  proof
    assume ne: "newMsgs_of cs ls oid \<noteq> []"
    have "sorted (map timestamp (stored_messages ls oid)) \<Longrightarrow>
          Max (timestamp ` set (newMsgs_of cs ls oid)) = timestamp (last (newMsgs_of cs ls oid))"
      using ne unfolding newMsgs_of_def by (intro Max_sorted_last sorted_filter)
    with ne show "\<exists>st' out. checkForNewMessages cs ls oid = Inr (st', out) \<and>
         lastSeenTimestamp st' oid = Some (timestamp (last (newMsgs_of cs ls oid))) \<and>
         (sorted (map timestamp (stored_messages ls oid)) \<longrightarrow>
            lastSeenTimestamp st' oid = Some (Max (timestamp ` set (newMsgs_of cs ls oid))))"
      by (simp add: checkForNewMessages_eq)
  qed
  have B: "fresh_of br ls oid \<noteq> [] \<and> \<not> length (stored_messages ls oid) < or_zero (seenCount br oid) \<longrightarrow>
      (\<exists>st' out. checkForDriverMessages br ls oid = Inr (st', out) \<and>
         lastSeenTs st' oid = Some (timestamp (last (fresh_of br ls oid))) \<and>
         (sorted (map timestamp (stored_messages ls oid)) \<longrightarrow>
            lastSeenTs st' oid = Some (Max (timestamp ` set (fresh_of br ls oid)))))"
  proof
    assume h: "fresh_of br ls oid \<noteq> [] \<and> \<not> length (stored_messages ls oid) < or_zero (seenCount br oid)"
    have "sorted (map timestamp (stored_messages ls oid)) \<Longrightarrow>
          Max (timestamp ` set (fresh_of br ls oid)) = timestamp (last (fresh_of br ls oid))"
      using h unfolding fresh_of_def by (intro Max_sorted_last sorted_filter) auto
    with h show "\<exists>st' out. checkForDriverMessages br ls oid = Inr (st', out) \<and>
         lastSeenTs st' oid = Some (timestamp (last (fresh_of br ls oid))) \<and>
         (sorted (map timestamp (stored_messages ls oid)) \<longrightarrow>
            lastSeenTs st' oid = Some (Max (timestamp ` set (fresh_of br ls oid))))"
      by (simp add: checkForDriverMessages_eq)
  qed
  from A B show ?thesis by blast
qed

text \<open>
  The theorem at a store in timestamp order: both channels end with the watermark at
  the last, and greatest, timestamp.
\<close>

theorem C3_watermark_is_last_selected_witness:
  "newMsgs_of fresh_chat_sync
      (storage_with [text_message ''m1'' ''customer'' ''2024-01-01T10:00:01.000Z'',
                     text_message ''m2'' ''driver'' ''2024-01-01T10:00:02.000Z'',
                     text_message ''m3'' ''driver'' ''2024-01-01T10:00:03.000Z'']) ''ORD-1'' \<noteq> []
   \<and> sorted (map timestamp (stored_messages
      (storage_with [text_message ''m1'' ''customer'' ''2024-01-01T10:00:01.000Z'',
                     text_message ''m2'' ''driver'' ''2024-01-01T10:00:02.000Z'',
                     text_message ''m3'' ''driver'' ''2024-01-01T10:00:03.000Z'']) ''ORD-1''))
   \<and> (\<exists>st' out. checkForNewMessages fresh_chat_sync
      (storage_with [text_message ''m1'' ''customer'' ''2024-01-01T10:00:01.000Z'',
                     text_message ''m2'' ''driver'' ''2024-01-01T10:00:02.000Z'',
                     text_message ''m3'' ''driver'' ''2024-01-01T10:00:03.000Z'']) ''ORD-1''
        = Inr (st', out) \<and> lastSeenTimestamp st' ''ORD-1'' = Some ''2024-01-01T10:00:03.000Z'')
   \<and> (\<exists>st' out. checkForDriverMessages fresh_bridge
      (storage_with [text_message ''m1'' ''customer'' ''2024-01-01T10:00:01.000Z'',
                     text_message ''m2'' ''driver'' ''2024-01-01T10:00:02.000Z'',
                     text_message ''m3'' ''driver'' ''2024-01-01T10:00:03.000Z'']) ''ORD-1''
        = Inr (st', out) \<and> lastSeenTs st' ''ORD-1'' = Some ''2024-01-01T10:00:03.000Z'')"
  using C3_watermark_is_last_selected [of fresh_chat_sync
      "storage_with [text_message ''m1'' ''customer'' ''2024-01-01T10:00:01.000Z'',
                     text_message ''m2'' ''driver'' ''2024-01-01T10:00:02.000Z'',
                     text_message ''m3'' ''driver'' ''2024-01-01T10:00:03.000Z'']"
      "''ORD-1''" fresh_bridge]
  by (simp add: stored_messages_storage_with fresh_bridge_def fresh_chat_sync_def or_zero_def
      or_epoch_def epoch_zero_def text_message_def newMsgs_of_def fresh_of_def
      checkForNewMessages_eq checkForDriverMessages_eq)

text \<open>
  Claim C3 as stated fails on a store whose append order is not its timestamp order: the
  pass selects both messages and leaves the watermark at the second one's timestamp,
  below the timestamp of the first.
\<close>

theorem C3_watermark_below_a_selected_timestamp:
  "checkForNewMessages fresh_chat_sync
      (storage_with [text_message ''m2'' ''customer'' ''2024-01-01T10:00:03.000Z'',
                     text_message ''m1'' ''customer'' ''2024-01-01T10:00:01.000Z'']) ''ORD-1''
   = Inr (\<lparr>onNewMessage = True,
           lastSeenTimestamp = [''ORD-1'' \<mapsto> ''2024-01-01T10:00:01.000Z'']\<rparr>,
          [text_message ''m2'' ''customer'' ''2024-01-01T10:00:03.000Z'',
           text_message ''m1'' ''customer'' ''2024-01-01T10:00:01.000Z''])
   \<and> ''2024-01-01T10:00:01.000Z''
       < timestamp (text_message ''m2'' ''customer'' ''2024-01-01T10:00:03.000Z'')"
  by (simp add: checkForNewMessages_eq newMsgs_of_def stored_messages_storage_with
      fresh_chat_sync_def or_epoch_def epoch_zero_def text_message_def)

subsection \<open>C5: a second pass on an unchanged store\<close>

lemma newMsgs_quiescent:
  assumes "\<forall>m\<in>set (newMsgs_of cs ls oid). timestamp m \<le> timestamp (last (newMsgs_of cs ls oid))"
    and "checkForNewMessages cs ls oid = Inr (cs1, out1)"
  shows "newMsgs_of cs1 ls oid = []"
proof (cases "newMsgs_of cs ls oid = []")
  case True
  with assms(2) show ?thesis by (simp add: checkForNewMessages_eq)
next
  case False
  let ?new = "newMsgs_of cs ls oid"
  let ?w = "or_epoch (lastSeenTimestamp cs oid)"
  from False have "last ?new \<in> set ?new" by simp
  then have above: "?w < timestamp (last ?new)" by (simp add: newMsgs_of_def)
  from False assms(2) have w1: "lastSeenTimestamp cs1 oid = Some (timestamp (last ?new))"
    by (auto simp: checkForNewMessages_eq)
  have w1': "or_epoch (lastSeenTimestamp cs1 oid) = timestamp (last ?new)"
    using above w1 by (simp add: or_epoch_above)
  show ?thesis
  proof (rule ccontr)
    assume "newMsgs_of cs1 ls oid \<noteq> []"
    then obtain m where m: "m \<in> set (newMsgs_of cs1 ls oid)"
      by (cases "newMsgs_of cs1 ls oid") auto
    then have "m \<in> set (stored_messages ls oid)" and gt: "timestamp (last ?new) < timestamp m"
      using w1' by (auto simp: newMsgs_of_def)
    then have "m \<in> set ?new" using above by (auto simp: newMsgs_of_def)
    with assms(1) have "timestamp m \<le> timestamp (last ?new)" by blast
    with gt show False by simp
  qed
qed

lemma fresh_quiescent:
  assumes "\<forall>m\<in>set (fresh_of br ls oid). timestamp m \<le> timestamp (last (fresh_of br ls oid))"
    and "checkForDriverMessages br ls oid = Inr (br1, out1)"
    and "DriverMessage d \<in> set out1"
  shows "fresh_of br1 ls oid = [] \<and> seenCount br1 oid = Some (length (stored_messages ls oid))"
proof -
  let ?new = "fresh_of br ls oid"
  let ?w = "or_epoch (lastSeenTs br oid)"
  from assms(2,3) have noclear: "\<not> length (stored_messages ls oid) < or_zero (seenCount br oid)"
    and ne: "?new \<noteq> []"
    by (auto simp: checkForDriverMessages_eq split: if_splits)
  from ne have "last ?new \<in> set ?new" by simp
  then have above: "?w < timestamp (last ?new)" by (simp add: fresh_of_def)
  from ne noclear assms(2) have w1: "lastSeenTs br1 oid = Some (timestamp (last ?new))"
    and c1: "seenCount br1 oid = Some (length (stored_messages ls oid))"
    by (auto simp: checkForDriverMessages_eq)
  have w1': "or_epoch (lastSeenTs br1 oid) = timestamp (last ?new)"
    using above w1 by (simp add: or_epoch_above)
  have "fresh_of br1 ls oid = []"
  proof (rule ccontr)
    assume "fresh_of br1 ls oid \<noteq> []"
    then obtain m where m: "m \<in> set (fresh_of br1 ls oid)"
      by (cases "fresh_of br1 ls oid") auto
    then have "m \<in> set (stored_messages ls oid)" and "sender m = ''driver''"
      and gt: "timestamp (last ?new) < timestamp m"
      using w1' by (auto simp: fresh_of_def)
    then have "m \<in> set ?new" using above by (auto simp: fresh_of_def)
    with assms(1) have "timestamp m \<le> timestamp (last ?new)" by blast
    with gt show False by simp
  qed
  with c1 show ?thesis by simp
qed

lemma sorted_selected_le_last:
  assumes "sorted (map timestamp msgs)"
  shows "\<forall>m\<in>set (filter P msgs). timestamp m \<le> timestamp (last (filter P msgs))"
  using sorted_filter [OF assms, of P] by (auto dest: sorted_map_le_last)

text \<open>
  Claim C5, as the code has it. When the stored sequence is in non-decreasing timestamp
  order, a pass that follows another pass on the unchanged store delivers nothing and
  leaves the module state as it is: for ChatSync after any pass, for the bridge after a
  pass that delivered a message.
\<close>

theorem C5_second_pass_delivers_nothing:
  "sorted (map timestamp (stored_messages ls oid)) \<longrightarrow>
     (\<forall>cs1 out1. checkForNewMessages cs ls oid = Inr (cs1, out1) \<longrightarrow>
        checkForNewMessages cs1 ls oid = Inr (cs1, []))
     \<and> (\<forall>br1 out1 d. checkForDriverMessages br ls oid = Inr (br1, out1) \<and> DriverMessage d \<in> set out1 \<longrightarrow>
        checkForDriverMessages br1 ls oid = Inr (br1, []))"
proof
  assume srt: "sorted (map timestamp (stored_messages ls oid))"
  have A: "\<forall>cs1 out1. checkForNewMessages cs ls oid = Inr (cs1, out1) \<longrightarrow>
        checkForNewMessages cs1 ls oid = Inr (cs1, [])"
  proof (intro allI impI)
    fix cs1 out1
    assume p: "checkForNewMessages cs ls oid = Inr (cs1, out1)"
    have "\<forall>m\<in>set (newMsgs_of cs ls oid). timestamp m \<le> timestamp (last (newMsgs_of cs ls oid))"
      unfolding newMsgs_of_def by (rule sorted_selected_le_last [OF srt])
    from newMsgs_quiescent [OF this p] show "checkForNewMessages cs1 ls oid = Inr (cs1, [])"
      by (simp add: checkForNewMessages_eq)
  qed
  have B: "\<forall>br1 out1 d. checkForDriverMessages br ls oid = Inr (br1, out1) \<and> DriverMessage d \<in> set out1 \<longrightarrow>
        checkForDriverMessages br1 ls oid = Inr (br1, [])"
  proof (intro allI impI)
    fix br1 out1 d
    assume p: "checkForDriverMessages br ls oid = Inr (br1, out1) \<and> DriverMessage d \<in> set out1"
    have "\<forall>m\<in>set (fresh_of br ls oid). timestamp m \<le> timestamp (last (fresh_of br ls oid))"
      unfolding fresh_of_def by (rule sorted_selected_le_last [OF srt])
    from fresh_quiescent [OF this] p
    have q: "fresh_of br1 ls oid = []" "seenCount br1 oid = Some (length (stored_messages ls oid))"
      by blast+
    have "(seenCount br1)(oid \<mapsto> length (stored_messages ls oid)) = seenCount br1"
      using q(2) by (simp add: map_upd_triv)
    with q show "checkForDriverMessages br1 ls oid = Inr (br1, [])"
      by (simp add: checkForDriverMessages_eq or_zero_def)
  qed
  from A B show "(\<forall>cs1 out1. checkForNewMessages cs ls oid = Inr (cs1, out1) \<longrightarrow>
        checkForNewMessages cs1 ls oid = Inr (cs1, []))
     \<and> (\<forall>br1 out1 d. checkForDriverMessages br ls oid = Inr (br1, out1) \<and> DriverMessage d \<in> set out1 \<longrightarrow>
        checkForDriverMessages br1 ls oid = Inr (br1, []))" by blast
qed

text \<open>
  The theorem at the store in timestamp order: the first pass of each channel delivers,
  the second delivers nothing.
\<close>

theorem C5_second_pass_delivers_nothing_witness:
  "sorted (map timestamp (stored_messages in_order_store ''ORD-1''))
   \<and> checkForNewMessages fresh_chat_sync in_order_store ''ORD-1''
       = Inr (\<lparr>onNewMessage = True,
               lastSeenTimestamp = [''ORD-1'' \<mapsto> ''2024-01-01T10:00:03.000Z'']\<rparr>,
              [text_message ''m1'' ''customer'' ''2024-01-01T10:00:01.000Z'',
               text_message ''m2'' ''driver'' ''2024-01-01T10:00:02.000Z'',
               text_message ''m3'' ''driver'' ''2024-01-01T10:00:03.000Z''])
   \<and> checkForNewMessages
         \<lparr>onNewMessage = True, lastSeenTimestamp = [''ORD-1'' \<mapsto> ''2024-01-01T10:00:03.000Z'']\<rparr>
         in_order_store ''ORD-1''
       = Inr (\<lparr>onNewMessage = True,
               lastSeenTimestamp = [''ORD-1'' \<mapsto> ''2024-01-01T10:00:03.000Z'']\<rparr>, [])
   \<and> (\<exists>br1. checkForDriverMessages fresh_bridge in_order_store ''ORD-1''
         = Inr (br1, [DriverMessage (text_message ''m2'' ''driver'' ''2024-01-01T10:00:02.000Z''),
                      DriverMessage (text_message ''m3'' ''driver'' ''2024-01-01T10:00:03.000Z'')])
       \<and> checkForDriverMessages br1 in_order_store ''ORD-1'' = Inr (br1, []))"
proof -
  let ?cs1 = "\<lparr>onNewMessage = True,
               lastSeenTimestamp = [''ORD-1'' \<mapsto> ''2024-01-01T10:00:03.000Z'']\<rparr>"
  let ?out = "[DriverMessage (text_message ''m2'' ''driver'' ''2024-01-01T10:00:02.000Z''),
               DriverMessage (text_message ''m3'' ''driver'' ''2024-01-01T10:00:03.000Z'')]"
  have s: "sorted (map timestamp (stored_messages in_order_store ''ORD-1''))"
    by (simp add: in_order_store_def stored_messages_storage_with text_message_def)
  have p: "checkForNewMessages fresh_chat_sync in_order_store ''ORD-1''
       = Inr (?cs1,
              [text_message ''m1'' ''customer'' ''2024-01-01T10:00:01.000Z'',
               text_message ''m2'' ''driver'' ''2024-01-01T10:00:02.000Z'',
               text_message ''m3'' ''driver'' ''2024-01-01T10:00:03.000Z''])"
    by (simp add: checkForNewMessages_eq newMsgs_of_def in_order_store_def
        stored_messages_storage_with fresh_chat_sync_def or_epoch_def epoch_zero_def
        text_message_def)
  obtain br1 where q: "checkForDriverMessages fresh_bridge in_order_store ''ORD-1'' = Inr (br1, ?out)"
    by (simp add: checkForDriverMessages_eq fresh_of_def in_order_store_def
        stored_messages_storage_with fresh_bridge_def or_epoch_def epoch_zero_def or_zero_def
        text_message_def)
  from C5_second_pass_delivers_nothing [of in_order_store "''ORD-1''" fresh_chat_sync fresh_bridge] s
  have r: "\<forall>cs1 out1. checkForNewMessages fresh_chat_sync in_order_store ''ORD-1'' = Inr (cs1, out1) \<longrightarrow>
              checkForNewMessages cs1 in_order_store ''ORD-1'' = Inr (cs1, [])"
    and r': "\<forall>br1 out1 d. checkForDriverMessages fresh_bridge in_order_store ''ORD-1'' = Inr (br1, out1)
                \<and> DriverMessage d \<in> set out1 \<longrightarrow>
              checkForDriverMessages br1 in_order_store ''ORD-1'' = Inr (br1, [])"
    by blast+
  from r p have p2: "checkForNewMessages ?cs1 in_order_store ''ORD-1'' = Inr (?cs1, [])"
    by blast
  have "DriverMessage (text_message ''m2'' ''driver'' ''2024-01-01T10:00:02.000Z'') \<in> set ?out"
    by simp
  with r' q have q2: "checkForDriverMessages br1 in_order_store ''ORD-1'' = Inr (br1, [])"
    by blast
  from s p p2 q q2 show ?thesis by blast
qed

text \<open>
  Claim C5 as stated fails on the store that is out of timestamp order: the first pass
  delivers both messages and leaves the watermark at the timestamp of the second, and the
  pass that follows, on the unchanged store, delivers the first message again.
\<close>

theorem C5_second_pass_redelivers:
  "checkForNewMessages fresh_chat_sync out_of_order_store ''ORD-1''
     = Inr (\<lparr>onNewMessage = True,
             lastSeenTimestamp = [''ORD-1'' \<mapsto> ''2024-01-01T10:00:01.000Z'']\<rparr>,
            [text_message ''m2'' ''customer'' ''2024-01-01T10:00:03.000Z'',
             text_message ''m1'' ''customer'' ''2024-01-01T10:00:01.000Z''])
   \<and> checkForNewMessages
        \<lparr>onNewMessage = True, lastSeenTimestamp = [''ORD-1'' \<mapsto> ''2024-01-01T10:00:01.000Z'']\<rparr>
        out_of_order_store ''ORD-1''
     = Inr (\<lparr>onNewMessage = True,
             lastSeenTimestamp = [''ORD-1'' \<mapsto> ''2024-01-01T10:00:03.000Z'']\<rparr>,
            [text_message ''m2'' ''customer'' ''2024-01-01T10:00:03.000Z''])"
  by (simp add: checkForNewMessages_eq newMsgs_of_def out_of_order_store_def
      stored_messages_storage_with fresh_chat_sync_def or_epoch_def epoch_zero_def
      text_message_def)

subsection \<open>C6: order of delivery\<close>

lemma strictly_ascending_selection:
  assumes "sorted_wrt (<) (map timestamp msgs)"
  shows "sorted_wrt (<) (map timestamp (filter P msgs)) \<and> distinct (filter P msgs)"
proof -
  from assms have "sorted_wrt (\<lambda>a b. timestamp a < timestamp b) msgs"
    by (simp add: sorted_wrt_map)
  then have f: "sorted_wrt (\<lambda>a b. timestamp a < timestamp b) (filter P msgs)"
    by (rule sorted_wrt_filter)
  then have "sorted_wrt (<) (map timestamp (filter P msgs))"
    by (simp add: sorted_wrt_map)
  moreover from this have "distinct (map timestamp (filter P msgs))"
    by (simp add: strict_sorted_iff)
  then have "distinct (filter P msgs)" by (simp add: distinct_map)
  ultimately show ?thesis by simp
qed

text \<open>
  Claim C6. When the stored messages were appended with strictly increasing timestamps,
  a pass hands the selected messages to a registered listener in strictly ascending
  timestamp order and each of them once: the list of callback invocations is the
  selected array itself, which is ascending and free of repetitions. For the bridge this
  is the pass that does not detect a clear, which is every pass of a listener
  initialised before the appends.
\<close>

theorem C6_delivery_in_timestamp_order:
  assumes "sorted_wrt (<) (map timestamp (stored_messages ls oid))"
    and "onNewMessage cs" and "onDriverMessage br"
    and "\<not> length (stored_messages ls oid) < or_zero (seenCount br oid)"
  shows "(\<exists>st'. checkForNewMessages cs ls oid = Inr (st', newMsgs_of cs ls oid))
         \<and> sorted_wrt (<) (map timestamp (newMsgs_of cs ls oid))
         \<and> distinct (newMsgs_of cs ls oid)
         \<and> (\<exists>st'. checkForDriverMessages br ls oid = Inr (st', map DriverMessage (fresh_of br ls oid)))
         \<and> sorted_wrt (<) (map timestamp (fresh_of br ls oid))
         \<and> distinct (fresh_of br ls oid)"
proof -
  have a: "\<exists>st'. checkForNewMessages cs ls oid = Inr (st', newMsgs_of cs ls oid)"
    using assms(2) by (simp add: checkForNewMessages_eq)
  have b: "\<exists>st'. checkForDriverMessages br ls oid = Inr (st', map DriverMessage (fresh_of br ls oid))"
    using assms(3,4) by (simp add: checkForDriverMessages_eq)
  have c: "sorted_wrt (<) (map timestamp (newMsgs_of cs ls oid)) \<and> distinct (newMsgs_of cs ls oid)"
    unfolding newMsgs_of_def by (rule strictly_ascending_selection [OF assms(1)])
  have d: "sorted_wrt (<) (map timestamp (fresh_of br ls oid)) \<and> distinct (fresh_of br ls oid)"
    unfolding fresh_of_def by (rule strictly_ascending_selection [OF assms(1)])
  from a b c d show ?thesis by blast
qed

lemma bridge_init_then_appends_no_clear:
  assumes "bridge_init br0 ls0 oid uid f g = Inr br"
    and "stored_messages ls oid = stored_messages ls0 oid @ added"
  shows "\<not> length (stored_messages ls oid) < or_zero (seenCount br oid)"
  using assms
  by (auto simp: bridge_init_def readChats_eq and_then_def Let_def or_zero_def stored_messages_def)

text \<open>
  The theorem at the store in timestamp order, for listeners registered on the empty
  store: ChatSync hands over the three messages in order, the bridge the two driver
  messages in order.
\<close>

theorem C6_delivery_in_timestamp_order_witness:
  "sorted_wrt (<) (map timestamp (stored_messages in_order_store ''ORD-1''))
   \<and> onNewMessage fresh_chat_sync \<and> onDriverMessage fresh_bridge
   \<and> \<not> length (stored_messages in_order_store ''ORD-1'') < or_zero (seenCount fresh_bridge ''ORD-1'')
   \<and> (\<exists>st'. checkForNewMessages fresh_chat_sync in_order_store ''ORD-1''
         = Inr (st', [text_message ''m1'' ''customer'' ''2024-01-01T10:00:01.000Z'',
                      text_message ''m2'' ''driver'' ''2024-01-01T10:00:02.000Z'',
                      text_message ''m3'' ''driver'' ''2024-01-01T10:00:03.000Z'']))
   \<and> (\<exists>st'. checkForDriverMessages fresh_bridge in_order_store ''ORD-1''
         = Inr (st', [DriverMessage (text_message ''m2'' ''driver'' ''2024-01-01T10:00:02.000Z''),
                      DriverMessage (text_message ''m3'' ''driver'' ''2024-01-01T10:00:03.000Z'')]))"
proof -
  have h1: "sorted_wrt (<) (map timestamp (stored_messages in_order_store ''ORD-1''))"
    by (simp add: in_order_store_def stored_messages_storage_with text_message_def)
  have h2: "onNewMessage fresh_chat_sync" by (simp add: fresh_chat_sync_def)
  have h3: "onDriverMessage fresh_bridge" by (simp add: fresh_bridge_def)
  have h4: "\<not> length (stored_messages in_order_store ''ORD-1'')
              < or_zero (seenCount fresh_bridge ''ORD-1'')"
    by (simp add: fresh_bridge_def or_zero_def)
  have n: "newMsgs_of fresh_chat_sync in_order_store ''ORD-1''
           = [text_message ''m1'' ''customer'' ''2024-01-01T10:00:01.000Z'',
              text_message ''m2'' ''driver'' ''2024-01-01T10:00:02.000Z'',
              text_message ''m3'' ''driver'' ''2024-01-01T10:00:03.000Z'']"
    by (simp add: newMsgs_of_def in_order_store_def stored_messages_storage_with
        fresh_chat_sync_def or_epoch_def epoch_zero_def text_message_def)
  have f: "fresh_of fresh_bridge in_order_store ''ORD-1''
           = [text_message ''m2'' ''driver'' ''2024-01-01T10:00:02.000Z'',
              text_message ''m3'' ''driver'' ''2024-01-01T10:00:03.000Z'']"
    by (simp add: fresh_of_def in_order_store_def stored_messages_storage_with
        fresh_bridge_def or_epoch_def epoch_zero_def text_message_def)
  from C6_delivery_in_timestamp_order [OF h1 h2 h3 h4] h1 h2 h3 h4 show ?thesis
    unfolding n f by simp
qed

lemma selection_after_init:
  fixes msgs0 added :: "message list"
  assumes srt: "sorted_wrt (<) (map timestamp (msgs0 @ added))"
    and late: "\<forall>m\<in>set added. epoch_zero < timestamp m"
    and w: "w = or_epoch (Some (if msgs0 \<noteq> [] then timestamp (last msgs0) else epoch_zero))"
  shows "filter (\<lambda>m. Q m \<and> w < timestamp m) (msgs0 @ added) = filter Q added"
proof -
  from srt have s0: "sorted (map timestamp msgs0)"
    and cross: "\<forall>x\<in>set msgs0. \<forall>y\<in>set added. timestamp x < timestamp y"
    by (auto simp: sorted_wrt_append sorted_wrt_map sorted_map intro: sorted_wrt_mono_rel [of _ "(\<lambda>a b. timestamp a < timestamp b)"])
  have old: "\<forall>x\<in>set msgs0. \<not> w < timestamp x"
  proof
    fix x assume x: "x \<in> set msgs0"
    then have ne: "msgs0 \<noteq> []" by auto
    from sorted_map_le_last [OF s0 x] have le: "timestamp x \<le> timestamp (last msgs0)" .
    show "\<not> w < timestamp x"
    proof (cases "timestamp (last msgs0) = []")
      case True
      with le have "timestamp x = []" by simp
      then show ?thesis by simp
    next
      case False
      with ne w have "w = timestamp (last msgs0)" by (simp add: or_epoch_def)
      with le show ?thesis by simp
    qed
  qed
  have new: "\<forall>y\<in>set added. w < timestamp y"
  proof
    fix y assume y: "y \<in> set added"
    show "w < timestamp y"
    proof (cases "msgs0 \<noteq> [] \<and> timestamp (last msgs0) \<noteq> []")
      case True
      then have "w = timestamp (last msgs0)" using w by (simp add: or_epoch_def)
      moreover from True have "last msgs0 \<in> set msgs0" by simp
      ultimately show ?thesis using cross y by auto
    next
      case False
      then have "w = epoch_zero" using w by (auto simp: or_epoch_def epoch_zero_def)
      with late y show ?thesis by simp
    qed
  qed
  have "filter (\<lambda>m. Q m \<and> w < timestamp m) msgs0 = []"
    using old by (auto simp: filter_empty_conv)
  moreover have "filter (\<lambda>m. Q m \<and> w < timestamp m) added = filter Q added"
    using new by (auto intro: filter_cong)
  ultimately show ?thesis by simp
qed

text \<open>
  A listener registered by \<open>init\<close> and then run on a store that has grown by appends with
  strictly increasing timestamps, all later than the epoch, receives the appended
  messages, in order: ChatSync all of them, the bridge those sent by the driver.
\<close>

lemma fresh_listener_receives_appends:
  assumes "stored_messages ls oid = stored_messages ls0 oid @ added"
    and "sorted_wrt (<) (map timestamp (stored_messages ls oid))"
    and "\<forall>m\<in>set added. epoch_zero < timestamp m"
  shows "init cs0 ls0 oid True = Inr cs \<Longrightarrow>
           \<exists>cs'. checkForNewMessages cs ls oid = Inr (cs', added)"
    and "bridge_init br0 ls0 oid uid True g = Inr br \<Longrightarrow>
           \<exists>br'. checkForDriverMessages br ls oid
                    = Inr (br', map DriverMessage (filter (\<lambda>m. sender m = ''driver'') added))"
proof -
  let ?w = "or_epoch (Some (if stored_messages ls0 oid \<noteq> []
                            then timestamp (last (stored_messages ls0 oid)) else epoch_zero))"
  note sel = selection_after_init [OF assms(2) [unfolded assms(1)] assms(3), of ?w]
  {
    assume i: "init cs0 ls0 oid True = Inr cs"
    then have on: "onNewMessage cs" and wm: "or_epoch (lastSeenTimestamp cs oid) = ?w"
      by (auto simp: init_def readChats_eq and_then_def Let_def stored_messages_def)
    have "newMsgs_of cs ls oid = added"
      unfolding newMsgs_of_def wm assms(1) using sel [of "\<lambda>_. True"] by simp
    then show "\<exists>cs'. checkForNewMessages cs ls oid = Inr (cs', added)"
      using on by (simp add: checkForNewMessages_eq)
  }
  {
    assume i: "bridge_init br0 ls0 oid uid True g = Inr br"
    then have on: "onDriverMessage br" and wm: "or_epoch (lastSeenTs br oid) = ?w"
      and cnt: "seenCount br oid = Some (length (stored_messages ls0 oid))"
      by (auto simp: bridge_init_def readChats_eq and_then_def Let_def stored_messages_def)
    have f: "fresh_of br ls oid = filter (\<lambda>m. sender m = ''driver'') added"
      unfolding fresh_of_def wm assms(1) using sel [of "\<lambda>m. sender m = ''driver''"] by simp
    have "\<not> length (stored_messages ls oid) < or_zero (seenCount br oid)"
      using cnt assms(1) by (simp add: or_zero_def)
    then show "\<exists>br'. checkForDriverMessages br ls oid
                    = Inr (br', map DriverMessage (filter (\<lambda>m. sender m = ''driver'') added))"
      using on f by (simp add: checkForDriverMessages_eq)
  }
qed

subsection \<open>C2: detection of a cleared history\<close>

lemma pass_delivers_stored:
  "\<exists>st1 out1. checkForDriverMessages st ls oid = Inr (st1, out1) \<and>
     (\<forall>m. DriverMessage m \<in> set out1 \<longrightarrow> m \<in> set (stored_messages ls oid))"
  by (auto simp: checkForDriverMessages_eq fresh_of_def)

lemma run_passes_delivers_stored:
  "\<exists>st' out. run_passes st later oid = Inr (st', out) \<and>
     (\<forall>m. DriverMessage m \<in> set out \<longrightarrow> (\<exists>ls\<in>set later. m \<in> set (stored_messages ls oid)))"
proof (induction later arbitrary: st)
  case Nil
  show ?case by simp
next
  case (Cons ls rest)
  obtain st1 out1 where p: "checkForDriverMessages st ls oid = Inr (st1, out1)"
    and p': "\<forall>m. DriverMessage m \<in> set out1 \<longrightarrow> m \<in> set (stored_messages ls oid)"
    using pass_delivers_stored [of st ls oid] by blast
  from Cons.IH [of st1] obtain st2 out2 where q: "run_passes st1 rest oid = Inr (st2, out2)"
    and q': "\<forall>m. DriverMessage m \<in> set out2 \<longrightarrow> (\<exists>ls\<in>set rest. m \<in> set (stored_messages ls oid))"
    by blast
  have "run_passes st (ls # rest) oid = Inr (st2, out1 @ out2)"
    using p q by (simp add: and_then_def)
  moreover have "\<forall>m. DriverMessage m \<in> set (out1 @ out2) \<longrightarrow>
                   (\<exists>l\<in>set (ls # rest). m \<in> set (stored_messages l oid))"
    using p' q' by auto
  ultimately show ?case by blast
qed

text \<open>
  Claim C2, as the code has it. A pass that reads fewer messages than the count it has
  recorded sets the watermark to the epoch, \<^verbatim>\<open>new Date(0).toISOString()\<close>, and the count to
  0, calls the clear callback once when one is registered, and hands over no message.
  Whatever passes follow, on whatever stores, hand over only messages that are in the
  store they read: a message that is in none of these stores, as a deleted message is, is
  not delivered again.
\<close>

theorem C2_clear_detection:
  assumes "length (stored_messages ls oid) < or_zero (seenCount br oid)"
  shows "\<exists>st'. checkForDriverMessages br ls oid
                  = Inr (st', if onChatCleared br then [ChatCleared oid] else [])
           \<and> lastSeenTs st' oid = Some epoch_zero
           \<and> seenCount st' oid = Some 0
           \<and> (\<forall>later m. (\<forall>l\<in>set later. m \<notin> set (stored_messages l oid)) \<longrightarrow>
                 (\<exists>st'' out. run_passes st' later oid = Inr (st'', out)
                    \<and> DriverMessage m \<notin> set out))"
proof -
  let ?st' = "br\<lparr>lastSeenTs := (lastSeenTs br)(oid \<mapsto> epoch_zero),
                 seenCount := (seenCount br)(oid \<mapsto> 0)\<rparr>"
  have a: "checkForDriverMessages br ls oid
             = Inr (?st', if onChatCleared br then [ChatCleared oid] else [])"
    using assms by (simp add: checkForDriverMessages_eq)
  have b: "\<forall>later m. (\<forall>l\<in>set later. m \<notin> set (stored_messages l oid)) \<longrightarrow>
             (\<exists>st'' out. run_passes ?st' later oid = Inr (st'', out) \<and> DriverMessage m \<notin> set out)"
  proof (intro allI impI)
    fix later m
    assume gone: "\<forall>l\<in>set later. m \<notin> set (stored_messages l oid)"
    from run_passes_delivers_stored [of ?st' later oid] obtain st'' out
      where r: "run_passes ?st' later oid = Inr (st'', out)"
        and r': "\<forall>m. DriverMessage m \<in> set out \<longrightarrow> (\<exists>l\<in>set later. m \<in> set (stored_messages l oid))"
      by blast
    from r' gone have "DriverMessage m \<notin> set out" by blast
    with r show "\<exists>st'' out. run_passes ?st' later oid = Inr (st'', out) \<and> DriverMessage m \<notin> set out"
      by blast
  qed
  have c: "lastSeenTs ?st' oid = Some epoch_zero" "seenCount ?st' oid = Some 0" by simp_all
  from a b c show ?thesis by blast
qed

text \<open>
  The theorem at a bridge that has seen three messages and reads an emptied store: one
  call of the clear callback, watermark at the epoch, count 0, and the deleted message
  \<open>m3\<close> is not delivered by two further passes on the emptied store.
\<close>

theorem C2_clear_detection_witness:
  "length (stored_messages (storage_with []) ''ORD-1'') < or_zero (seenCount bridge_after_three ''ORD-1'')
   \<and> (\<exists>st'. checkForDriverMessages bridge_after_three (storage_with []) ''ORD-1''
               = Inr (st', [ChatCleared ''ORD-1''])
          \<and> lastSeenTs st' ''ORD-1'' = Some ''1970-01-01T00:00:00.000Z''
          \<and> seenCount st' ''ORD-1'' = Some 0
          \<and> (\<exists>st'' out. run_passes st' [storage_with [], storage_with []] ''ORD-1'' = Inr (st'', out)
                \<and> DriverMessage (text_message ''m3'' ''driver'' ''2024-01-01T10:00:03.000Z'')
                     \<notin> set out))"
proof -
  have h: "length (stored_messages (storage_with []) ''ORD-1'')
             < or_zero (seenCount bridge_after_three ''ORD-1'')"
    by (simp add: stored_messages_storage_with bridge_after_three_def or_zero_def)
  from C2_clear_detection [OF h] obtain st' where
    a: "checkForDriverMessages bridge_after_three (storage_with []) ''ORD-1''
          = Inr (st', if onChatCleared bridge_after_three then [ChatCleared ''ORD-1''] else [])"
    and b: "lastSeenTs st' ''ORD-1'' = Some epoch_zero" "seenCount st' ''ORD-1'' = Some 0"
    and c: "\<forall>later m. (\<forall>l\<in>set later. m \<notin> set (stored_messages l ''ORD-1'')) \<longrightarrow>
                 (\<exists>st'' out. run_passes st' later ''ORD-1'' = Inr (st'', out)
                    \<and> DriverMessage m \<notin> set out)"
    by blast
  have "\<forall>l\<in>set [storage_with [], storage_with []].
          text_message ''m3'' ''driver'' ''2024-01-01T10:00:03.000Z'' \<notin> set (stored_messages l ''ORD-1'')"
    by (simp add: stored_messages_storage_with)
  with c have d: "\<exists>st'' out. run_passes st' [storage_with [], storage_with []] ''ORD-1'' = Inr (st'', out)
                \<and> DriverMessage (text_message ''m3'' ''driver'' ''2024-01-01T10:00:03.000Z'') \<notin> set out"
    by blast
  from a have a': "checkForDriverMessages bridge_after_three (storage_with []) ''ORD-1''
          = Inr (st', [ChatCleared ''ORD-1''])"
    by (simp add: bridge_after_three_def)
  from b have b': "lastSeenTs st' ''ORD-1'' = Some ''1970-01-01T00:00:00.000Z''"
    by (simp add: epoch_zero_def)
  from h a' b' b(2) d show ?thesis by blast
qed

text \<open>
  Claim C2 as stated fails on the watermark. The bridge that has seen three messages
  reads a store of one message: the pass detects the clear and leaves the watermark at
  1970-01-01T00:00:00.000Z, not at the time of the pass, and the next pass, on the
  unchanged store, delivers the driver message stamped 10:00:01, which is older than
  the watermark 10:00:03 the bridge had before.
\<close>

theorem C2_watermark_reset_to_epoch:
  "checkForDriverMessages bridge_after_three store_after_clear ''ORD-1''
     = Inr (\<lparr>activeOrderId = Some ''ORD-1'', onDriverMessage = True, onChatCleared = True,
             lastSeenTs = [''ORD-1'' \<mapsto> ''1970-01-01T00:00:00.000Z''],
             seenCount = [''ORD-1'' \<mapsto> 0], userId = ''customer''\<rparr>,
            [ChatCleared ''ORD-1''])
   \<and> checkForDriverMessages
        \<lparr>activeOrderId = Some ''ORD-1'', onDriverMessage = True, onChatCleared = True,
         lastSeenTs = [''ORD-1'' \<mapsto> ''1970-01-01T00:00:00.000Z''],
         seenCount = [''ORD-1'' \<mapsto> 0], userId = ''customer''\<rparr>
        store_after_clear ''ORD-1''
     = Inr (\<lparr>activeOrderId = Some ''ORD-1'', onDriverMessage = True, onChatCleared = True,
             lastSeenTs = [''ORD-1'' \<mapsto> ''2024-01-01T10:00:01.000Z''],
             seenCount = [''ORD-1'' \<mapsto> 1], userId = ''customer''\<rparr>,
            [DriverMessage (text_message ''init-1'' ''driver'' ''2024-01-01T10:00:01.000Z'')])"
  by (simp add: checkForDriverMessages_eq fresh_of_def store_after_clear_def
      stored_messages_storage_with bridge_after_three_def or_epoch_def epoch_zero_def
      or_zero_def text_message_def)

subsection \<open>C4: appending a message id twice\<close>

lemma sendMessage_ok:
  "\<not> setItem_throws ls \<Longrightarrow>
   sendMessage now u ls oid msg =
     Inr (ls\<lparr>chats_item := Some (Json (appended now oid (enrich u msg) (stored_chats ls))),
             unread_item := (if sender msg \<noteq> ''driver''
                             then Some (Json ((stored_unread ls)
                                    (oid \<mapsto> or_zero (stored_unread ls oid) + 1)))
                             else unread_item ls)\<rparr>)"
  by (simp add: sendMessage_def readChats_eq readUnread_eq and_then_def Let_def writeChats_def
      writeUnread_def setItem_chats_def setItem_unread_def appended_def enrich_def
      stored_unread_def)

lemma messages_appended:
  "messages_or_empty (appended now oid m chats) oid =
     (if list_ex (\<lambda>x. msg_id x = msg_id m) (messages_or_empty chats oid)
      then messages_or_empty chats oid else messages_or_empty chats oid @ [m])"
  by (simp add: appended_def messages_or_empty_def Let_def new_conversation_def
      split: option.splits)

lemma appended_twice:
  "msg_id m2 = msg_id m \<Longrightarrow>
   appended now_b oid m2 (appended now oid m chats) = appended now oid m chats"
  by (auto simp: appended_def Let_def new_conversation_def list_ex_iff split: option.splits)

lemma count_after_append:
  assumes "length (filter (\<lambda>x. msg_id x = i) msgs) \<le> 1" and "msg_id m = i"
  shows "length (filter (\<lambda>x. msg_id x = i)
           (if list_ex (\<lambda>x. msg_id x = msg_id m) msgs then msgs else msgs @ [m])) = 1"
proof (cases "list_ex (\<lambda>x. msg_id x = msg_id m) msgs")
  case True
  then obtain x where "x \<in> set msgs" "msg_id x = i" using assms(2) by (auto simp: list_ex_iff)
  then have "filter (\<lambda>x. msg_id x = i) msgs \<noteq> []" by (auto simp: filter_empty_conv)
  then have "length (filter (\<lambda>x. msg_id x = i) msgs) \<ge> 1"
    by (cases "filter (\<lambda>x. msg_id x = i) msgs") auto
  with assms(1) True show ?thesis by simp
next
  case False
  then have "filter (\<lambda>x. msg_id x = i) msgs = []"
    using assms(2) by (auto simp: list_ex_iff filter_empty_conv)
  with False assms(2) show ?thesis by simp
qed

lemma stored_chats_written:
  "\<not> getItem_throws ls \<Longrightarrow> stored_chats (ls\<lparr>chats_item := Some (Json c), unread_item := un\<rparr>) = c"
  by (simp add: stored_chats_def)

lemma safeGet_eq:
  "safeGet ws key =
     Inr (if reads_throw ws then None
          else case items ws key of Some (Json v) \<Rightarrow> Some v | _ \<Rightarrow> None)"
  by (simp add: safeGet_def try_catch_def and_then_def getItem_def JSON_parse_def
      split: option.splits item.splits)

lemma safeSet_eq:
  "safeSet ws key v =
     Inr (if writes_throw ws then (False, ws)
          else (True, ws\<lparr>items := (items ws)(key \<mapsto> Json v)\<rparr>))"
  by (simp add: safeSet_def try_catch_def and_then_def setItem_def)

lemma addMessage_ok:
  assumes "\<not> reads_throw ws" "\<not> writes_throw ws" "getChats ws = Inr chats"
  shows "addMessage now ws oid msg =
           (if list_ex (\<lambda>x. msg_id x = msg_id msg) (messages_or_empty chats oid)
            then Inr (False, ws)
            else Inr (True, ws\<lparr>items := (items ws)(''rideflow-chats'' \<mapsto> Json (appended now oid msg chats))\<rparr>))"
  using assms
  by (auto simp: addMessage_def and_then_def Let_def setChats_def safeSet_eq appended_def
      messages_or_empty_def new_conversation_def split: option.splits)

lemma getChats_written:
  "\<not> reads_throw ws \<Longrightarrow>
   getChats (ws\<lparr>items := (items ws)(''rideflow-chats'' \<mapsto> Json c)\<rparr>) = Inr c"
  by (simp add: getChats_def safeGet_eq and_then_def or_empty_object_def)

lemma id_present_after_append:
  "msg_id m \<in> set (map msg_id (if list_ex (\<lambda>x. msg_id x = msg_id m) msgs then msgs else msgs @ [m]))"
  by (auto simp: list_ex_iff) (metis imageI)

text \<open>
  Claim C4. On a storage that can be read and written, two appends that carry the same
  message id leave the stored sequence, and the whole conversations map, after the
  second append as it was after the first; the sequence holds a message with that id,
  and exactly one whenever the id occurred at most once in the conversation beforehand
  (as in every sequence built by these appends). This holds for \<open>sendMessage\<close> of
  ChatSync and for \<open>addMessage\<close> of the Storage module, whose second call also returns
  \<^verbatim>\<open>false\<close> without writing.
\<close>

theorem C4_append_same_id_twice:
  assumes "msg_id msg_b = msg_id msg"
    and "\<not> getItem_throws ls" "\<not> setItem_throws ls"
    and "\<not> reads_throw ws" "\<not> writes_throw ws"
    and "Storage_getMessages ws oid = Inr before"
  shows "(\<exists>ls1 ls2 msgs. sendMessage now_a u_a ls oid msg = Inr ls1
            \<and> sendMessage now_b u_b ls1 oid msg_b = Inr ls2
            \<and> getMessages ls1 oid = Inr msgs \<and> getMessages ls2 oid = Inr msgs
            \<and> readChats ls2 = readChats ls1
            \<and> msg_id msg \<in> set (map msg_id msgs)
            \<and> (length (filter (\<lambda>x. msg_id x = msg_id msg) (stored_messages ls oid)) \<le> 1
                 \<longrightarrow> length (filter (\<lambda>x. msg_id x = msg_id msg) msgs) = 1))
         \<and> (\<exists>ok ws1 msgs. addMessage now_a ws oid msg = Inr (ok, ws1)
            \<and> addMessage now_b ws1 oid msg_b = Inr (False, ws1)
            \<and> Storage_getMessages ws1 oid = Inr msgs
            \<and> msg_id msg \<in> set (map msg_id msgs)
            \<and> (length (filter (\<lambda>x. msg_id x = msg_id msg) before) \<le> 1
                 \<longrightarrow> length (filter (\<lambda>x. msg_id x = msg_id msg) msgs) = 1))"
proof -
  let ?c1 = "appended now_a oid (enrich u_a msg) (stored_chats ls)"
  let ?ls1 = "ls\<lparr>chats_item := Some (Json ?c1),
                  unread_item := (if sender msg \<noteq> ''driver''
                                  then Some (Json ((stored_unread ls)
                                         (oid \<mapsto> or_zero (stored_unread ls oid) + 1)))
                                  else unread_item ls)\<rparr>"
  have ids: "msg_id (enrich u_a msg) = msg_id msg" "msg_id (enrich u_b msg_b) = msg_id msg"
    using assms(1) by (simp_all add: enrich_def)
  have s1: "sendMessage now_a u_a ls oid msg = Inr ?ls1"
    using assms(3) by (rule sendMessage_ok)
  have flags: "\<not> setItem_throws ?ls1" "\<not> getItem_throws ?ls1" using assms(2,3) by simp_all
  have sc1: "stored_chats ?ls1 = ?c1" using assms(2) by (rule stored_chats_written)
  obtain ls2 where s2: "sendMessage now_b u_b ?ls1 oid msg_b = Inr ls2"
    and ls2: "ls2 = ?ls1\<lparr>chats_item := Some (Json (appended now_b oid (enrich u_b msg_b) (stored_chats ?ls1))),
             unread_item := (if sender msg_b \<noteq> ''driver''
                             then Some (Json ((stored_unread ?ls1)
                                    (oid \<mapsto> or_zero (stored_unread ?ls1 oid) + 1)))
                             else unread_item ?ls1)\<rparr>"
    using sendMessage_ok [OF flags(1), of now_b u_b oid msg_b] by blast
  have "appended now_b oid (enrich u_b msg_b) ?c1 = ?c1"
    using ids by (intro appended_twice) simp
  then have sc2: "stored_chats ls2 = ?c1"
    unfolding ls2 sc1 using assms(2) by (simp add: stored_chats_def)
  have cnt: "length (filter (\<lambda>x. msg_id x = msg_id msg) (stored_messages ls oid)) \<le> 1
               \<longrightarrow> length (filter (\<lambda>x. msg_id x = msg_id msg) (messages_or_empty ?c1 oid)) = 1"
    unfolding messages_appended stored_messages_def [symmetric]
    by (rule impI) (rule count_after_append [OF _ ids(1)])
  have "msg_id (enrich u_a msg) \<in> set (map msg_id (messages_or_empty ?c1 oid))"
    unfolding messages_appended by (rule id_present_after_append)
  then have pres: "msg_id msg \<in> set (map msg_id (messages_or_empty ?c1 oid))"
    unfolding ids .
  have A: "\<exists>ls1 ls2 msgs. sendMessage now_a u_a ls oid msg = Inr ls1
            \<and> sendMessage now_b u_b ls1 oid msg_b = Inr ls2
            \<and> getMessages ls1 oid = Inr msgs \<and> getMessages ls2 oid = Inr msgs
            \<and> readChats ls2 = readChats ls1
            \<and> msg_id msg \<in> set (map msg_id msgs)
            \<and> (length (filter (\<lambda>x. msg_id x = msg_id msg) (stored_messages ls oid)) \<le> 1
                 \<longrightarrow> length (filter (\<lambda>x. msg_id x = msg_id msg) msgs) = 1)"
    using s1 s2 sc1 sc2 cnt pres
    by (intro exI [of _ ?ls1] exI [of _ ls2] exI [of _ "messages_or_empty ?c1 oid"])
       (simp add: getMessages_eq stored_messages_def readChats_eq)
  obtain chats where gc: "getChats ws = Inr chats" and before: "before = messages_or_empty chats oid"
    using assms(6) by (auto simp: Storage_getMessages_def getChats_def safeGet_eq and_then_def)
  let ?w1 = "ws\<lparr>items := (items ws)(''rideflow-chats'' \<mapsto> Json (appended now_a oid msg chats))\<rparr>"
  have B: "\<exists>ok ws1 msgs. addMessage now_a ws oid msg = Inr (ok, ws1)
            \<and> addMessage now_b ws1 oid msg_b = Inr (False, ws1)
            \<and> Storage_getMessages ws1 oid = Inr msgs
            \<and> msg_id msg \<in> set (map msg_id msgs)
            \<and> (length (filter (\<lambda>x. msg_id x = msg_id msg) before) \<le> 1
                 \<longrightarrow> length (filter (\<lambda>x. msg_id x = msg_id msg) msgs) = 1)"
  proof (cases "list_ex (\<lambda>x. msg_id x = msg_id msg) before")
    case True
    have a1: "addMessage now_a ws oid msg = Inr (False, ws)"
      using addMessage_ok [OF assms(4,5) gc] True before by simp
    have a2: "addMessage now_b ws oid msg_b = Inr (False, ws)"
      using addMessage_ok [OF assms(4,5) gc, of now_b oid msg_b] True before assms(1) by simp
    have c: "length (filter (\<lambda>x. msg_id x = msg_id msg) before) \<le> 1
               \<longrightarrow> length (filter (\<lambda>x. msg_id x = msg_id msg) before) = 1"
      using count_after_append [of "msg_id msg" before msg] True by simp
    have p: "msg_id msg \<in> set (map msg_id before)"
      using True by (auto simp: list_ex_iff) (metis imageI)
    from a1 a2 assms(6) p c show ?thesis by blast
  next
    case False
    have a1: "addMessage now_a ws oid msg = Inr (True, ?w1)"
      using addMessage_ok [OF assms(4,5) gc] False before by simp
    have g1: "getChats ?w1 = Inr (appended now_a oid msg chats)"
      using assms(4) by (rule getChats_written)
    have fl: "\<not> reads_throw ?w1" "\<not> writes_throw ?w1" using assms(4,5) by simp_all
    have ex: "list_ex (\<lambda>x. msg_id x = msg_id msg_b) (messages_or_empty (appended now_a oid msg chats) oid)"
      using False before assms(1) by (simp add: messages_appended)
    have a2: "addMessage now_b ?w1 oid msg_b = Inr (False, ?w1)"
      using addMessage_ok [OF fl g1, of now_b oid msg_b] ex by simp
    have m1: "Storage_getMessages ?w1 oid = Inr (before @ [msg])"
      using g1 False before by (simp add: Storage_getMessages_def and_then_def messages_appended)
    have c: "length (filter (\<lambda>x. msg_id x = msg_id msg) before) \<le> 1
               \<longrightarrow> length (filter (\<lambda>x. msg_id x = msg_id msg) (before @ [msg])) = 1"
      using count_after_append [of "msg_id msg" before msg] False by simp
    have p: "msg_id msg \<in> set (map msg_id (before @ [msg]))" by simp
    from a1 a2 m1 p c show ?thesis by blast
  qed
  from A B show ?thesis by (rule conjI)
qed

text \<open>
  The theorem on empty storage, for a customer message sent and then sent again with the
  same id and a later timestamp.
\<close>

theorem C4_append_same_id_twice_witness:
  "msg_id (text_message ''m1'' ''customer'' ''2024-01-01T10:00:02.000Z'')
     = msg_id (text_message ''m1'' ''customer'' ''2024-01-01T10:00:01.000Z'')
   \<and> \<not> getItem_throws empty_storage \<and> \<not> setItem_throws empty_storage
   \<and> length (filter (\<lambda>x. msg_id x = msg_id (text_message ''m1'' ''customer'' ''2024-01-01T10:00:01.000Z''))
               (stored_messages empty_storage ''ORD-1'')) \<le> 1
   \<and> \<not> reads_throw empty_web_storage \<and> \<not> writes_throw empty_web_storage
   \<and> Storage_getMessages empty_web_storage ''ORD-1'' = Inr []
   \<and> (\<exists>ls1 ls2 msgs.
         sendMessage ''2024-01-01T10:00:01.000Z'' None empty_storage ''ORD-1''
            (text_message ''m1'' ''customer'' ''2024-01-01T10:00:01.000Z'') = Inr ls1
         \<and> sendMessage ''2024-01-01T10:00:02.000Z'' None ls1 ''ORD-1''
            (text_message ''m1'' ''customer'' ''2024-01-01T10:00:02.000Z'') = Inr ls2
         \<and> getMessages ls1 ''ORD-1'' = Inr msgs \<and> getMessages ls2 ''ORD-1'' = Inr msgs
         \<and> readChats ls2 = readChats ls1
         \<and> length (filter (\<lambda>x. msg_id x = ''m1'') msgs) = 1)
   \<and> (\<exists>ok ws1 msgs.
         addMessage ''2024-01-01T10:00:01.000Z'' empty_web_storage ''ORD-1''
            (text_message ''m1'' ''customer'' ''2024-01-01T10:00:01.000Z'') = Inr (ok, ws1)
         \<and> addMessage ''2024-01-01T10:00:02.000Z'' ws1 ''ORD-1''
            (text_message ''m1'' ''customer'' ''2024-01-01T10:00:02.000Z'') = Inr (False, ws1)
         \<and> Storage_getMessages ws1 ''ORD-1'' = Inr msgs
         \<and> length (filter (\<lambda>x. msg_id x = ''m1'') msgs) = 1)"
proof -
  let ?m = "text_message ''m1'' ''customer'' ''2024-01-01T10:00:01.000Z''"
  let ?m2 = "text_message ''m1'' ''customer'' ''2024-01-01T10:00:02.000Z''"
  have i: "msg_id ?m = ''m1''" by (simp add: text_message_def)
  have h1: "msg_id ?m2 = msg_id ?m" by (simp add: text_message_def)
  have h2: "\<not> getItem_throws empty_storage" and h3: "\<not> setItem_throws empty_storage"
    by (simp_all add: empty_storage_def)
  have h4: "length (filter (\<lambda>x. msg_id x = msg_id ?m) (stored_messages empty_storage ''ORD-1'')) \<le> 1"
    by (simp add: stored_messages_def stored_chats_def empty_storage_def messages_or_empty_def)
  have h5: "\<not> reads_throw empty_web_storage" and h6: "\<not> writes_throw empty_web_storage"
    by (simp_all add: empty_web_storage_def)
  have h7: "Storage_getMessages empty_web_storage ''ORD-1'' = Inr []"
    by (simp add: Storage_getMessages_def getChats_def safeGet_eq and_then_def
        empty_web_storage_def or_empty_object_def messages_or_empty_def)
  have h8: "length (filter (\<lambda>x. msg_id x = msg_id ?m) []) \<le> 1" by simp
  note t = C4_append_same_id_twice [OF h1 h2 h3 h5 h6 h7,
      where now_a = "''2024-01-01T10:00:01.000Z''" and now_b = "''2024-01-01T10:00:02.000Z''"
        and u_a = None and u_b = None]
  from t [THEN conjunct1] h4 have A: "\<exists>ls1 ls2 msgs.
         sendMessage ''2024-01-01T10:00:01.000Z'' None empty_storage ''ORD-1'' ?m = Inr ls1
         \<and> sendMessage ''2024-01-01T10:00:02.000Z'' None ls1 ''ORD-1'' ?m2 = Inr ls2
         \<and> getMessages ls1 ''ORD-1'' = Inr msgs \<and> getMessages ls2 ''ORD-1'' = Inr msgs
         \<and> readChats ls2 = readChats ls1
         \<and> length (filter (\<lambda>x. msg_id x = ''m1'') msgs) = 1"
    unfolding i by blast
  from t [THEN conjunct2] h8 have B: "\<exists>ok ws1 msgs.
         addMessage ''2024-01-01T10:00:01.000Z'' empty_web_storage ''ORD-1'' ?m = Inr (ok, ws1)
         \<and> addMessage ''2024-01-01T10:00:02.000Z'' ws1 ''ORD-1'' ?m2 = Inr (False, ws1)
         \<and> Storage_getMessages ws1 ''ORD-1'' = Inr msgs
         \<and> length (filter (\<lambda>x. msg_id x = ''m1'') msgs) = 1"
    unfolding i by blast
  from h1 h2 h3 h4 h5 h6 h7 A B show ?thesis by (intro conjI)
qed

subsection \<open>C7: the unread counter\<close>

lemma getUnreadCount_eq: "getUnreadCount ls oid = Inr (or_zero (stored_unread ls oid))"
  by (simp add: getUnreadCount_def readUnread_eq and_then_def)

lemma sendMessage_unread:
  assumes "\<not> getItem_throws ls" "\<not> setItem_throws ls"
  shows "\<exists>ls1. sendMessage now u ls oid m = Inr ls1
           \<and> \<not> getItem_throws ls1 \<and> \<not> setItem_throws ls1
           \<and> or_zero (stored_unread ls1 oid)
               = or_zero (stored_unread ls oid) + (if sender m \<noteq> ''driver'' then 1 else 0)"
  using assms by (simp add: sendMessage_ok stored_unread_def or_zero_def)

lemma send_all_unread:
  assumes "\<not> getItem_throws ls" "\<not> setItem_throws ls"
  shows "\<exists>ls'. send_all u ls oid sends = Inr ls'
           \<and> \<not> getItem_throws ls' \<and> \<not> setItem_throws ls'
           \<and> or_zero (stored_unread ls' oid)
               = or_zero (stored_unread ls oid)
                 + length (filter (\<lambda>(now, m). sender m \<noteq> ''driver'') sends)"
  using assms
proof (induction sends arbitrary: ls)
  case Nil
  then show ?case by simp
next
  case (Cons s sends)
  obtain now m where s: "s = (now, m)" by (cases s)
  from sendMessage_unread [OF Cons.prems, of now u oid m] obtain ls1 where
    a: "sendMessage now u ls oid m = Inr ls1"
    and f: "\<not> getItem_throws ls1" "\<not> setItem_throws ls1"
    and c: "or_zero (stored_unread ls1 oid)
              = or_zero (stored_unread ls oid) + (if sender m \<noteq> ''driver'' then 1 else 0)"
    by blast
  from Cons.IH [OF f] obtain ls' where
    b: "send_all u ls1 oid sends = Inr ls'"
    and f': "\<not> getItem_throws ls'" "\<not> setItem_throws ls'"
    and c': "or_zero (stored_unread ls' oid)
              = or_zero (stored_unread ls1 oid)
                + length (filter (\<lambda>(now, m). sender m \<noteq> ''driver'') sends)"
    by blast
  have "send_all u ls oid (s # sends) = Inr ls'"
    using a b s by (simp add: and_then_def)
  moreover have "or_zero (stored_unread ls' oid)
              = or_zero (stored_unread ls oid)
                + length (filter (\<lambda>(now, m). sender m \<noteq> ''driver'') (s # sends))"
    using c c' s by simp
  ultimately show ?case using f' by blast
qed

lemma markAllRead_ok:
  assumes "\<not> getItem_throws ls" "\<not> setItem_throws ls"
  shows "\<exists>ls'. markAllRead ls oid = Inr ls' \<and> getUnreadCount ls' oid = Inr 0"
  using assms
  by (simp add: markAllRead_def readUnread_eq and_then_def writeUnread_def setItem_unread_def
      getUnreadCount_eq stored_unread_def or_zero_def)

text \<open>
  Claim C7, as the code has it. On a storage that can be read and written, every
  \<open>sendMessage\<close> call whose message is not authored by \<^verbatim>\<open>'driver'\<close> adds one to the
  persisted unread count of the order, whether the message was inserted or was a
  duplicate id and skipped, and a driver-authored send adds nothing: after a run of
  sends the count is the count before plus the number of sends not authored by the
  driver. \<open>markAllRead\<close> then brings the count to 0, and \<open>getUnreadCount\<close> is 0 for an
  order without an entry.
\<close>

theorem C7_unread_counts_sends:
  assumes "\<not> getItem_throws ls" "\<not> setItem_throws ls"
  shows "\<exists>ls'. send_all u ls oid sends = Inr ls'
           \<and> getUnreadCount ls' oid
               = Inr (or_zero (stored_unread ls oid)
                      + length (filter (\<lambda>(now, m). sender m \<noteq> ''driver'') sends))
           \<and> (\<exists>ls''. markAllRead ls' oid = Inr ls'' \<and> getUnreadCount ls'' oid = Inr 0)
           \<and> (stored_unread ls oid = None \<longrightarrow> getUnreadCount ls oid = Inr 0)"
proof -
  from send_all_unread [OF assms, of u oid sends] obtain ls' where
    a: "send_all u ls oid sends = Inr ls'"
    and f: "\<not> getItem_throws ls'" "\<not> setItem_throws ls'"
    and c: "or_zero (stored_unread ls' oid)
              = or_zero (stored_unread ls oid)
                + length (filter (\<lambda>(now, m). sender m \<noteq> ''driver'') sends)"
    by blast
  have b: "getUnreadCount ls' oid
               = Inr (or_zero (stored_unread ls oid)
                      + length (filter (\<lambda>(now, m). sender m \<noteq> ''driver'') sends))"
    using c by (simp add: getUnreadCount_eq)
  have d: "\<exists>ls''. markAllRead ls' oid = Inr ls'' \<and> getUnreadCount ls'' oid = Inr 0"
    using f by (rule markAllRead_ok)
  have e: "stored_unread ls oid = None \<longrightarrow> getUnreadCount ls oid = Inr 0"
    by (simp add: getUnreadCount_eq or_zero_def)
  from a b d e have all: "send_all u ls oid sends = Inr ls'
           \<and> getUnreadCount ls' oid
               = Inr (or_zero (stored_unread ls oid)
                      + length (filter (\<lambda>(now, m). sender m \<noteq> ''driver'') sends))
           \<and> (\<exists>ls''. markAllRead ls' oid = Inr ls'' \<and> getUnreadCount ls'' oid = Inr 0)
           \<and> (stored_unread ls oid = None \<longrightarrow> getUnreadCount ls oid = Inr 0)"
    by (intro conjI)
  show ?thesis by (rule exI [of _ ls']) (rule all)
qed

text \<open>
  The theorem on empty storage, for three customer messages followed by a driver
  message: the count is 3, and 0 after \<open>markAllRead\<close>.
\<close>

theorem C7_unread_counts_sends_witness:
  "\<not> getItem_throws empty_storage \<and> \<not> setItem_throws empty_storage
   \<and> stored_unread empty_storage ''ORD-1'' = None
   \<and> getUnreadCount empty_storage ''ORD-1'' = Inr 0
   \<and> (\<exists>ls'. send_all None empty_storage ''ORD-1'' example_sends = Inr ls'
          \<and> getUnreadCount ls' ''ORD-1'' = Inr 3
          \<and> (\<exists>ls''. markAllRead ls' ''ORD-1'' = Inr ls'' \<and> getUnreadCount ls'' ''ORD-1'' = Inr 0))"
proof -
  have h1: "\<not> getItem_throws empty_storage" and h2: "\<not> setItem_throws empty_storage"
    by (simp_all add: empty_storage_def)
  have h3: "stored_unread empty_storage ''ORD-1'' = None"
    by (simp add: stored_unread_def empty_storage_def)
  have n: "or_zero (stored_unread empty_storage ''ORD-1'')
             + length (filter (\<lambda>(now, m). sender m \<noteq> ''driver'') example_sends) = 3"
    by (simp add: h3 or_zero_def example_sends_def text_message_def)
  note t = C7_unread_counts_sends [OF h1 h2, of None "''ORD-1''" example_sends, unfolded n]
  from t h3 have e: "getUnreadCount empty_storage ''ORD-1'' = Inr 0" by blast
  from t have "\<exists>ls'. send_all None empty_storage ''ORD-1'' example_sends = Inr ls'
          \<and> getUnreadCount ls' ''ORD-1'' = Inr 3
          \<and> (\<exists>ls''. markAllRead ls' ''ORD-1'' = Inr ls'' \<and> getUnreadCount ls'' ''ORD-1'' = Inr 0)"
    by blast
  with h1 h2 h3 e show ?thesis by (intro conjI)
qed

text \<open>
  Claim C7 as stated fails on a duplicate: the same customer message sent twice is
  stored once, and the unread count is 2.
\<close>

theorem C7_duplicate_send_is_counted:
  "send_all None empty_storage ''ORD-1''
     [(''2024-01-01T10:00:01.000Z'', text_message ''m1'' ''customer'' ''2024-01-01T10:00:01.000Z''),
      (''2024-01-01T10:00:02.000Z'', text_message ''m1'' ''customer'' ''2024-01-01T10:00:01.000Z'')]
   = Inr store_after_duplicate
   \<and> getMessages store_after_duplicate ''ORD-1''
       = Inr [enrich None (text_message ''m1'' ''customer'' ''2024-01-01T10:00:01.000Z'')]
   \<and> getUnreadCount store_after_duplicate ''ORD-1'' = Inr 2"
proof -
  let ?m = "text_message ''m1'' ''customer'' ''2024-01-01T10:00:01.000Z''"
  let ?s1 = "\<lparr>chats_item = Some (Json [''ORD-1'' \<mapsto>
         \<lparr>orderId = ''ORD-1'', customerId = None, driverId = None,
          messages = [enrich None ?m],
          createdAt = ''2024-01-01T10:00:01.000Z'',
          lastMessageTime = ''2024-01-01T10:00:01.000Z''\<rparr>]),
      unread_item = Some (Json [''ORD-1'' \<mapsto> Suc 0]),
      getItem_throws = False, setItem_throws = False\<rparr>"
  have two: "Suc (Suc 0) = 2" by simp
  have s1: "sendMessage ''2024-01-01T10:00:01.000Z'' None empty_storage ''ORD-1'' ?m = Inr ?s1"
    by (simp add: sendMessage_ok empty_storage_def appended_def Let_def stored_chats_def
        stored_unread_def new_conversation_def or_zero_def enrich_def text_message_def)
  have "sendMessage ''2024-01-01T10:00:02.000Z'' None ?s1 ''ORD-1'' ?m
          = Inr \<lparr>chats_item = Some (Json [''ORD-1'' \<mapsto>
         \<lparr>orderId = ''ORD-1'', customerId = None, driverId = None,
          messages = [enrich None ?m],
          createdAt = ''2024-01-01T10:00:01.000Z'',
          lastMessageTime = ''2024-01-01T10:00:01.000Z''\<rparr>]),
      unread_item = Some (Json [''ORD-1'' \<mapsto> Suc (Suc 0)]),
      getItem_throws = False, setItem_throws = False\<rparr>"
    by (simp add: sendMessage_ok appended_def Let_def stored_chats_def
        stored_unread_def new_conversation_def or_zero_def enrich_def text_message_def)
  then have s2: "sendMessage ''2024-01-01T10:00:02.000Z'' None ?s1 ''ORD-1'' ?m
          = Inr store_after_duplicate"
    unfolding two store_after_duplicate_def .
  have a: "send_all None empty_storage ''ORD-1''
     [(''2024-01-01T10:00:01.000Z'', ?m), (''2024-01-01T10:00:02.000Z'', ?m)]
   = Inr store_after_duplicate"
    by (simp only: send_all.simps s1 s2 and_then_def sum.case)
  have b: "getMessages store_after_duplicate ''ORD-1'' = Inr [enrich None ?m]"
    by (simp add: getMessages_eq stored_messages_def stored_chats_def store_after_duplicate_def
        messages_or_empty_def)
  have c: "getUnreadCount store_after_duplicate ''ORD-1'' = Inr 2"
    by (simp add: getUnreadCount_eq stored_unread_def store_after_duplicate_def or_zero_def)
  from a b c show ?thesis by (intro conjI)
qed

subsection \<open>C8: clearing a conversation\<close>

lemma deleteChatHistory_ok:
  "\<not> setItem_throws ls \<Longrightarrow>
   deleteChatHistory now ls oid =
     Inr (ls\<lparr>chats_item := Some (Json (case stored_chats ls oid of
              None \<Rightarrow> stored_chats ls
            | Some c \<Rightarrow> (stored_chats ls)(oid \<mapsto> c\<lparr>messages := [], lastMessageTime := now\<rparr>)))\<rparr>)"
  by (simp add: deleteChatHistory_def readChats_eq and_then_def writeChats_def setItem_chats_def)

lemma bridge_deleteChatHistory_ok:
  "\<not> setItem_throws ls \<Longrightarrow>
   truthy (case truthy arg of None \<Rightarrow> activeOrderId br | Some a \<Rightarrow> Some a) = Some t \<Longrightarrow>
   bridge_deleteChatHistory now br ls arg =
     Inr (br\<lparr>lastSeenTs := (lastSeenTs br)(t \<mapsto> now), seenCount := (seenCount br)(t \<mapsto> 0)\<rparr>,
          ls\<lparr>chats_item := Some (Json (case stored_chats ls t of
              None \<Rightarrow> stored_chats ls
            | Some c \<Rightarrow> (stored_chats ls)(t \<mapsto> c\<lparr>messages := [], lastMessageTime := now\<rparr>)))\<rparr>)"
  by (simp add: bridge_deleteChatHistory_def readChats_eq and_then_def writeChats_def
      setItem_chats_def Let_def)

lemma cleared_view:
  assumes "ls' = ls\<lparr>chats_item := Some (Json (case stored_chats ls oid of
              None \<Rightarrow> stored_chats ls
            | Some c \<Rightarrow> (stored_chats ls)(oid \<mapsto> c\<lparr>messages := [], lastMessageTime := now\<rparr>)))\<rparr>"
  shows "(\<forall>conv. stored_chats ls oid = Some conv \<longrightarrow>
            stored_chats ls' oid = Some (conv\<lparr>messages := [], lastMessageTime := now\<rparr>))
         \<and> (stored_chats ls oid = None \<longrightarrow> stored_chats ls' oid = None)
         \<and> (\<forall>k. k \<noteq> oid \<longrightarrow> stored_chats ls' k = stored_chats ls k)
         \<and> stored_unread ls' = stored_unread ls"
  unfolding assms
  by (auto simp: stored_chats_def stored_unread_def split: option.splits item.splits)

text \<open>
  Claim C8. On a storage that accepts the write, \<open>deleteChatHistory\<close> of ChatSync and of
  the bridge (for the order it is given, or the active order when it is given none) turn
  an existing conversation record into the same record with an empty message sequence
  and \<open>lastMessageTime\<close> set to the time of the call, every other field (\<open>orderId\<close>,
  \<open>createdAt\<close>, \<open>customerId\<close>, \<open>driverId\<close>) as it was; leave every other conversation
  and the unread counts as they were; and create no record for an id that has none.
\<close>

theorem C8_clear_preserves_record:
  assumes "\<not> setItem_throws ls"
    and "truthy (case truthy arg of None \<Rightarrow> activeOrderId br | Some a \<Rightarrow> Some a) = Some t"
  shows "(\<exists>ls'. deleteChatHistory now ls oid = Inr ls'
            \<and> (\<forall>conv. stored_chats ls oid = Some conv \<longrightarrow>
                  stored_chats ls' oid = Some (conv\<lparr>messages := [], lastMessageTime := now\<rparr>))
            \<and> (stored_chats ls oid = None \<longrightarrow> stored_chats ls' oid = None)
            \<and> (\<forall>k. k \<noteq> oid \<longrightarrow> stored_chats ls' k = stored_chats ls k)
            \<and> stored_unread ls' = stored_unread ls)
         \<and> (\<exists>br' ls'. bridge_deleteChatHistory now br ls arg = Inr (br', ls')
            \<and> (\<forall>conv. stored_chats ls t = Some conv \<longrightarrow>
                  stored_chats ls' t = Some (conv\<lparr>messages := [], lastMessageTime := now\<rparr>))
            \<and> (stored_chats ls t = None \<longrightarrow> stored_chats ls' t = None)
            \<and> (\<forall>k. k \<noteq> t \<longrightarrow> stored_chats ls' k = stored_chats ls k)
            \<and> stored_unread ls' = stored_unread ls)"
proof -
  let ?w = "\<lambda>k. ls\<lparr>chats_item := Some (Json (case stored_chats ls k of
              None \<Rightarrow> stored_chats ls
            | Some c \<Rightarrow> (stored_chats ls)(k \<mapsto> c\<lparr>messages := [], lastMessageTime := now\<rparr>)))\<rparr>"
  have a: "deleteChatHistory now ls oid = Inr (?w oid)"
    using assms(1) by (rule deleteChatHistory_ok)
  have A: "\<exists>ls'. deleteChatHistory now ls oid = Inr ls'
            \<and> (\<forall>conv. stored_chats ls oid = Some conv \<longrightarrow>
                  stored_chats ls' oid = Some (conv\<lparr>messages := [], lastMessageTime := now\<rparr>))
            \<and> (stored_chats ls oid = None \<longrightarrow> stored_chats ls' oid = None)
            \<and> (\<forall>k. k \<noteq> oid \<longrightarrow> stored_chats ls' k = stored_chats ls k)
            \<and> stored_unread ls' = stored_unread ls"
    using a cleared_view [of "?w oid" ls oid now] by (intro exI [of _ "?w oid"]) simp
  have b: "bridge_deleteChatHistory now br ls arg =
     Inr (br\<lparr>lastSeenTs := (lastSeenTs br)(t \<mapsto> now), seenCount := (seenCount br)(t \<mapsto> 0)\<rparr>,
          ?w t)"
    using assms by (rule bridge_deleteChatHistory_ok)
  have B: "\<exists>br' ls'. bridge_deleteChatHistory now br ls arg = Inr (br', ls')
            \<and> (\<forall>conv. stored_chats ls t = Some conv \<longrightarrow>
                  stored_chats ls' t = Some (conv\<lparr>messages := [], lastMessageTime := now\<rparr>))
            \<and> (stored_chats ls t = None \<longrightarrow> stored_chats ls' t = None)
            \<and> (\<forall>k. k \<noteq> t \<longrightarrow> stored_chats ls' k = stored_chats ls k)
            \<and> stored_unread ls' = stored_unread ls"
    using b cleared_view [of "?w t" ls t now]
    by (intro exI [of _ "br\<lparr>lastSeenTs := (lastSeenTs br)(t \<mapsto> now),
                              seenCount := (seenCount br)(t \<mapsto> 0)\<rparr>"] exI [of _ "?w t"]) simp
  from A B show ?thesis by (rule conjI)
qed

text \<open>
  The theorem at the store with two conversations, for ChatSync clearing \<^verbatim>\<open>'ORD-1'\<close> and
  for the bridge, not yet initialised, called with the id \<^verbatim>\<open>'ORD-1'\<close>: the record of
  \<^verbatim>\<open>'ORD-1'\<close> stays with its fields and no messages, the record of \<^verbatim>\<open>'ORD-2'\<close> is as it was.
\<close>

theorem C8_clear_preserves_record_witness:
  "\<not> setItem_throws two_orders_store
   \<and> truthy (case truthy (Some ''ORD-1'') of None \<Rightarrow> activeOrderId fresh_bridge | Some a \<Rightarrow> Some a)
       = Some ''ORD-1''
   \<and> (\<exists>ls'. deleteChatHistory ''2024-01-01T11:00:00.000Z'' two_orders_store ''ORD-1'' = Inr ls'
         \<and> stored_chats ls' ''ORD-1''
             = Some \<lparr>orderId = ''ORD-1'', customerId = Some ''customer'',
                     driverId = Some ''drv_001'', messages = [],
                     createdAt = ''2024-01-01T10:00:01.000Z'',
                     lastMessageTime = ''2024-01-01T11:00:00.000Z''\<rparr>
         \<and> stored_chats ls' ''ORD-2'' = stored_chats two_orders_store ''ORD-2''
         \<and> stored_unread ls' = stored_unread two_orders_store)
   \<and> (\<exists>br' ls'. bridge_deleteChatHistory ''2024-01-01T11:00:00.000Z'' fresh_bridge
                     two_orders_store (Some ''ORD-1'') = Inr (br', ls')
         \<and> stored_chats ls' ''ORD-1''
             = Some \<lparr>orderId = ''ORD-1'', customerId = Some ''customer'',
                     driverId = Some ''drv_001'', messages = [],
                     createdAt = ''2024-01-01T10:00:01.000Z'',
                     lastMessageTime = ''2024-01-01T11:00:00.000Z''\<rparr>
         \<and> stored_chats ls' ''ORD-2'' = stored_chats two_orders_store ''ORD-2''
         \<and> stored_unread ls' = stored_unread two_orders_store)"
proof -
  let ?now = "''2024-01-01T11:00:00.000Z''"
  let ?conv = "\<lparr>orderId = ''ORD-1'', customerId = Some ''customer'', driverId = Some ''drv_001'',
          messages = [text_message ''m1'' ''customer'' ''2024-01-01T10:00:01.000Z'',
                      text_message ''m2'' ''driver'' ''2024-01-01T10:00:02.000Z''],
          createdAt = ''2024-01-01T10:00:01.000Z'',
          lastMessageTime = ''2024-01-01T10:00:02.000Z''\<rparr>"
  have h1: "\<not> setItem_throws two_orders_store" by (simp add: two_orders_store_def)
  have h2: "truthy (case truthy (Some ''ORD-1'') of None \<Rightarrow> activeOrderId fresh_bridge
                    | Some a \<Rightarrow> Some a) = Some ''ORD-1''"
    by (simp add: truthy_def)
  have c: "stored_chats two_orders_store ''ORD-1'' = Some ?conv"
    by (simp add: stored_chats_def two_orders_store_def)
  have k: "''ORD-2'' \<noteq> ''ORD-1''" by simp
  have r: "?conv\<lparr>messages := [], lastMessageTime := ?now\<rparr>
            = \<lparr>orderId = ''ORD-1'', customerId = Some ''customer'',
                     driverId = Some ''drv_001'', messages = [],
                     createdAt = ''2024-01-01T10:00:01.000Z'',
                     lastMessageTime = ''2024-01-01T11:00:00.000Z''\<rparr>"
    by simp
  note t = C8_clear_preserves_record [OF h1 h2, of ?now "''ORD-1''"]
  from t [THEN conjunct1] obtain ls' where
    a: "deleteChatHistory ?now two_orders_store ''ORD-1'' = Inr ls'
        \<and> (\<forall>conv. stored_chats two_orders_store ''ORD-1'' = Some conv \<longrightarrow>
               stored_chats ls' ''ORD-1'' = Some (conv\<lparr>messages := [], lastMessageTime := ?now\<rparr>))
        \<and> (stored_chats two_orders_store ''ORD-1'' = None \<longrightarrow> stored_chats ls' ''ORD-1'' = None)
        \<and> (\<forall>k. k \<noteq> ''ORD-1'' \<longrightarrow> stored_chats ls' k = stored_chats two_orders_store k)
        \<and> stored_unread ls' = stored_unread two_orders_store" ..
  note a1 = a [THEN conjunct1]
    and a2 = a [THEN conjunct2, THEN conjunct1, rule_format, OF c, unfolded r]
    and a3 = a [THEN conjunct2, THEN conjunct2, THEN conjunct2, THEN conjunct1, rule_format, OF k]
    and a4 = a [THEN conjunct2, THEN conjunct2, THEN conjunct2, THEN conjunct2]
  have A: "\<exists>ls'. deleteChatHistory ?now two_orders_store ''ORD-1'' = Inr ls'
         \<and> stored_chats ls' ''ORD-1''
             = Some \<lparr>orderId = ''ORD-1'', customerId = Some ''customer'',
                     driverId = Some ''drv_001'', messages = [],
                     createdAt = ''2024-01-01T10:00:01.000Z'',
                     lastMessageTime = ''2024-01-01T11:00:00.000Z''\<rparr>
         \<and> stored_chats ls' ''ORD-2'' = stored_chats two_orders_store ''ORD-2''
         \<and> stored_unread ls' = stored_unread two_orders_store"
    by (intro exI [of _ ls'] conjI) (rule a1 a2 a3 a4)+
  from t [THEN conjunct2] obtain br' where
    "\<exists>ls'. bridge_deleteChatHistory ?now fresh_bridge two_orders_store (Some ''ORD-1'') = Inr (br', ls')
        \<and> (\<forall>conv. stored_chats two_orders_store ''ORD-1'' = Some conv \<longrightarrow>
               stored_chats ls' ''ORD-1'' = Some (conv\<lparr>messages := [], lastMessageTime := ?now\<rparr>))
        \<and> (stored_chats two_orders_store ''ORD-1'' = None \<longrightarrow> stored_chats ls' ''ORD-1'' = None)
        \<and> (\<forall>k. k \<noteq> ''ORD-1'' \<longrightarrow> stored_chats ls' k = stored_chats two_orders_store k)
        \<and> stored_unread ls' = stored_unread two_orders_store" ..
  then obtain ls'' where
    b: "bridge_deleteChatHistory ?now fresh_bridge two_orders_store (Some ''ORD-1'') = Inr (br', ls'')
        \<and> (\<forall>conv. stored_chats two_orders_store ''ORD-1'' = Some conv \<longrightarrow>
               stored_chats ls'' ''ORD-1'' = Some (conv\<lparr>messages := [], lastMessageTime := ?now\<rparr>))
        \<and> (stored_chats two_orders_store ''ORD-1'' = None \<longrightarrow> stored_chats ls'' ''ORD-1'' = None)
        \<and> (\<forall>k. k \<noteq> ''ORD-1'' \<longrightarrow> stored_chats ls'' k = stored_chats two_orders_store k)
        \<and> stored_unread ls'' = stored_unread two_orders_store" ..
  note b1 = b [THEN conjunct1]
    and b2 = b [THEN conjunct2, THEN conjunct1, rule_format, OF c, unfolded r]
    and b3 = b [THEN conjunct2, THEN conjunct2, THEN conjunct2, THEN conjunct1, rule_format, OF k]
    and b4 = b [THEN conjunct2, THEN conjunct2, THEN conjunct2, THEN conjunct2]
  have B: "\<exists>br' ls'. bridge_deleteChatHistory ?now fresh_bridge
                     two_orders_store (Some ''ORD-1'') = Inr (br', ls')
         \<and> stored_chats ls' ''ORD-1''
             = Some \<lparr>orderId = ''ORD-1'', customerId = Some ''customer'',
                     driverId = Some ''drv_001'', messages = [],
                     createdAt = ''2024-01-01T10:00:01.000Z'',
                     lastMessageTime = ''2024-01-01T11:00:00.000Z''\<rparr>
         \<and> stored_chats ls' ''ORD-2'' = stored_chats two_orders_store ''ORD-2''
         \<and> stored_unread ls' = stored_unread two_orders_store"
    by (intro exI [of _ br'] exI [of _ ls''] conjI) (rule b1 b2 b3 b4)+
  from h1 h2 A B show ?thesis by (intro conjI)
qed

subsection \<open>C9: failures of the storage, in the Storage module and in the chat modules\<close>

lemma getItem_cases:
  "getItem ws key = Inl SecurityError \<and> reads_throw ws
   \<or> getItem ws key = Inr (items ws key) \<and> \<not> reads_throw ws"
  by (simp add: getItem_def)

lemma setItem_cases:
  "setItem ws key v = Inl QuotaExceededError \<and> writes_throw ws
   \<or> setItem ws key v = Inr (ws\<lparr>items := (items ws)(key \<mapsto> Json v)\<rparr>) \<and> \<not> writes_throw ws"
  by (simp add: setItem_def)














subsection \<open>C10: the bridge before init\<close>

text \<open>
  Claim C10, as the code has it. While \<^verbatim>\<open>_activeOrderId\<close> is still \<^verbatim>\<open>null\<close>,
  \<open>sendTextMessage\<close> and \<open>sendImageMessage\<close> return without touching the store,
  \<open>getHistory\<close> returns the empty list, and \<open>deleteChatHistory\<close> called without an order
  id (or with an empty one) returns with the store and the module state unchanged.
  Called with an order id, \<open>deleteChatHistory\<close> does not look at \<^verbatim>\<open>_activeOrderId\<close>: on a
  storage that accepts the write it clears that order's conversation and sets the
  module's watermark and count for it, before \<open>init\<close> as after.
\<close>

theorem C10_bridge_before_init:
  assumes "activeOrderId br = None"
  shows "sendTextMessage now gen_id u br ls text = Inr ls
         \<and> sendImageMessage now gen_id u br ls dataUrl fname = Inr ls
         \<and> getHistory br ls = Inr []
         \<and> bridge_deleteChatHistory now br ls None = Inr (br, ls)
         \<and> bridge_deleteChatHistory now br ls (Some []) = Inr (br, ls)
         \<and> (\<forall>t. t \<noteq> [] \<and> \<not> setItem_throws ls \<longrightarrow>
               bridge_deleteChatHistory now br ls (Some t)
                 = Inr (br\<lparr>lastSeenTs := (lastSeenTs br)(t \<mapsto> now),
                           seenCount := (seenCount br)(t \<mapsto> 0)\<rparr>,
                        ls\<lparr>chats_item := Some (Json (case stored_chats ls t of
                             None \<Rightarrow> stored_chats ls
                           | Some c \<Rightarrow> (stored_chats ls)
                               (t \<mapsto> c\<lparr>messages := [], lastMessageTime := now\<rparr>)))\<rparr>))"
proof (intro conjI)
  show "sendTextMessage now gen_id u br ls text = Inr ls"
    using assms by (simp add: sendTextMessage_def truthy_def)
  show "sendImageMessage now gen_id u br ls dataUrl fname = Inr ls"
    using assms by (simp add: sendImageMessage_def truthy_def)
  show "getHistory br ls = Inr []"
    using assms by (simp add: getHistory_def truthy_def)
  show "bridge_deleteChatHistory now br ls None = Inr (br, ls)"
    using assms by (simp add: bridge_deleteChatHistory_def truthy_def)
  show "bridge_deleteChatHistory now br ls (Some []) = Inr (br, ls)"
    using assms by (simp add: bridge_deleteChatHistory_def truthy_def)
  show "\<forall>t. t \<noteq> [] \<and> \<not> setItem_throws ls \<longrightarrow>
               bridge_deleteChatHistory now br ls (Some t)
                 = Inr (br\<lparr>lastSeenTs := (lastSeenTs br)(t \<mapsto> now),
                           seenCount := (seenCount br)(t \<mapsto> 0)\<rparr>,
                        ls\<lparr>chats_item := Some (Json (case stored_chats ls t of
                             None \<Rightarrow> stored_chats ls
                           | Some c \<Rightarrow> (stored_chats ls)
                               (t \<mapsto> c\<lparr>messages := [], lastMessageTime := now\<rparr>)))\<rparr>)"
  proof (intro allI impI)
    fix t :: string
    assume h: "t \<noteq> [] \<and> \<not> setItem_throws ls"
    then have "truthy (case truthy (Some t) of None \<Rightarrow> activeOrderId br | Some a \<Rightarrow> Some a) = Some t"
      by (simp add: truthy_def)
    with h show "bridge_deleteChatHistory now br ls (Some t)
                 = Inr (br\<lparr>lastSeenTs := (lastSeenTs br)(t \<mapsto> now),
                           seenCount := (seenCount br)(t \<mapsto> 0)\<rparr>,
                        ls\<lparr>chats_item := Some (Json (case stored_chats ls t of
                             None \<Rightarrow> stored_chats ls
                           | Some c \<Rightarrow> (stored_chats ls)
                               (t \<mapsto> c\<lparr>messages := [], lastMessageTime := now\<rparr>)))\<rparr>)"
      by (intro bridge_deleteChatHistory_ok) simp_all
  qed
qed

text \<open>
  The theorem at the bridge before \<open>init\<close> and the store with two conversations: the
  sends, \<open>getHistory\<close> and the delete without an id leave everything as it is.
\<close>

theorem C10_bridge_before_init_witness:
  "activeOrderId fresh_bridge = None
   \<and> sendTextMessage ''2024-01-01T11:00:00.000Z'' ''msg-1704106800000-ab12c'' None
        fresh_bridge two_orders_store ''Where are you?'' = Inr two_orders_store
   \<and> sendImageMessage ''2024-01-01T11:00:00.000Z'' ''msg-1704106800000-ab12c'' None
        fresh_bridge two_orders_store ''data:image/png;base64,AAAA'' (Some ''map.png'')
        = Inr two_orders_store
   \<and> getHistory fresh_bridge two_orders_store = Inr []
   \<and> bridge_deleteChatHistory ''2024-01-01T11:00:00.000Z'' fresh_bridge two_orders_store None
        = Inr (fresh_bridge, two_orders_store)"
proof -
  have h: "activeOrderId fresh_bridge = None" by (simp add: fresh_bridge_def)
  note t = C10_bridge_before_init [OF h, of "''2024-01-01T11:00:00.000Z''"
      "''msg-1704106800000-ab12c''" None two_orders_store "''Where are you?''"
      "''data:image/png;base64,AAAA''" "Some ''map.png''"]
  from h t [THEN conjunct1] t [THEN conjunct2, THEN conjunct1]
    t [THEN conjunct2, THEN conjunct2, THEN conjunct1]
    t [THEN conjunct2, THEN conjunct2, THEN conjunct2, THEN conjunct1]
  show ?thesis by (intro conjI)
qed

text \<open>
  Claim C10 as stated fails for \<open>deleteChatHistory\<close>: before \<open>init\<close>, the call the customer
  page makes, with the order id as argument, empties the conversation in the store.
\<close>

theorem C10_delete_with_id_before_init:
  "activeOrderId fresh_bridge = None
   \<and> getMessages two_orders_store ''ORD-1''
       = Inr [text_message ''m1'' ''customer'' ''2024-01-01T10:00:01.000Z'',
              text_message ''m2'' ''driver'' ''2024-01-01T10:00:02.000Z'']
   \<and> bridge_deleteChatHistory ''2024-01-01T11:00:00.000Z'' fresh_bridge two_orders_store
        (Some ''ORD-1'')
       = Inr (\<lparr>activeOrderId = None, onDriverMessage = True, onChatCleared = True,
               lastSeenTs = [''ORD-1'' \<mapsto> ''2024-01-01T11:00:00.000Z''],
               seenCount = [''ORD-1'' \<mapsto> 0], userId = ''customer''\<rparr>,
              two_orders_store_cleared)
   \<and> getMessages two_orders_store_cleared ''ORD-1'' = Inr []"
proof -
  have a: "activeOrderId fresh_bridge = None" by (simp add: fresh_bridge_def)
  have b: "getMessages two_orders_store ''ORD-1''
       = Inr [text_message ''m1'' ''customer'' ''2024-01-01T10:00:01.000Z'',
              text_message ''m2'' ''driver'' ''2024-01-01T10:00:02.000Z'']"
    by (simp add: getMessages_eq stored_messages_def stored_chats_def two_orders_store_def
        messages_or_empty_def)
  have m: "\<And>c1 c2 c3. [''ORD-1'' \<mapsto> c1, ''ORD-2'' \<mapsto> c2](''ORD-1'' \<mapsto> c3)
             = [''ORD-1'' \<mapsto> c3, ''ORD-2'' \<mapsto> (c2 :: conversation)]"
    by (rule ext) simp
  have ns: "\<not> setItem_throws two_orders_store" by (simp add: two_orders_store_def)
  have tr: "truthy (case truthy (Some ''ORD-1'') of None \<Rightarrow> activeOrderId fresh_bridge
                    | Some a \<Rightarrow> Some a) = Some ''ORD-1''"
    by (simp add: truthy_def)
  have sc: "stored_chats two_orders_store ''ORD-1''
     = Some \<lparr>orderId = ''ORD-1'', customerId = Some ''customer'', driverId = Some ''drv_001'',
          messages = [text_message ''m1'' ''customer'' ''2024-01-01T10:00:01.000Z'',
                      text_message ''m2'' ''driver'' ''2024-01-01T10:00:02.000Z''],
          createdAt = ''2024-01-01T10:00:01.000Z'',
          lastMessageTime = ''2024-01-01T10:00:02.000Z''\<rparr>"
    by (simp add: stored_chats_def two_orders_store_def)
  have c: "bridge_deleteChatHistory ''2024-01-01T11:00:00.000Z'' fresh_bridge two_orders_store
        (Some ''ORD-1'')
       = Inr (\<lparr>activeOrderId = None, onDriverMessage = True, onChatCleared = True,
               lastSeenTs = [''ORD-1'' \<mapsto> ''2024-01-01T11:00:00.000Z''],
               seenCount = [''ORD-1'' \<mapsto> 0], userId = ''customer''\<rparr>,
              two_orders_store_cleared)"
    unfolding bridge_deleteChatHistory_ok [OF ns tr] sc
    by (simp add: fresh_bridge_def two_orders_store_cleared_def two_orders_store_def
        stored_chats_def m)
  have d: "getMessages two_orders_store_cleared ''ORD-1'' = Inr []"
    by (simp add: getMessages_eq stored_messages_def stored_chats_def
        two_orders_store_cleared_def messages_or_empty_def)
  from a b c d show ?thesis by (intro conjI)
qed

end
